theory Spec2Isabelle
  imports Main
begin

section \<open>JavaScript values and string operations used by the handlers\<close>

text \<open>
  A query parameter of the request is a string or absent (\<open>undefined\<close>): \<open>string option\<close>.
  A field of a consumer returned by the remote platform may be a string, \<open>null\<close> or absent.
  Strings are lists of code units below 256.
\<close>

datatype jsval = Undefined | Null | Str string

fun of_query :: "string option \<Rightarrow> jsval" where
  "of_query None = Undefined"
| "of_query (Some s) = Str s"

text \<open>Truthiness of an optional string: \<open>undefined\<close> and the empty string are falsy.\<close>

fun truthy :: "string option \<Rightarrow> bool" where
  "truthy None = False"
| "truthy (Some s) = (s \<noteq> [])"

text \<open>\<open>a || b\<close> where \<open>b\<close> is a string.\<close>

fun or_else :: "string option \<Rightarrow> string \<Rightarrow> string" where
  "or_else None d = d"
| "or_else (Some s) d = (if s \<noteq> [] then s else d)"

text \<open>
  \<open>String.prototype.trim\<close> removes white space and line terminators at both ends; below
  256 these are TAB, LF, VT, FF, CR, SPACE and NBSP.
\<close>

definition isWhiteSpace :: "char \<Rightarrow> bool" where
  "isWhiteSpace c = (c = CHR 0x09 \<or> c = CHR 0x0A \<or> c = CHR 0x0B \<or> c = CHR 0x0C \<or>
                     c = CHR 0x0D \<or> c = CHR 0x20 \<or> c = CHR 0xA0)"

definition trim :: "string \<Rightarrow> string" where
  "trim s = rev (dropWhile isWhiteSpace (rev (dropWhile isWhiteSpace s)))"

text \<open>
  \<open>String.prototype.split\<close> with a one-character separator: the segments between the
  separators, in order; a string without separator is the only segment.
\<close>

fun split_acc :: "char \<Rightarrow> string \<Rightarrow> string \<Rightarrow> string list" where
  "split_acc sep acc [] = [rev acc]"
| "split_acc sep acc (c # cs) =
     (if c = sep then rev acc # split_acc sep [] cs else split_acc sep (c # acc) cs)"

definition split_js :: "char \<Rightarrow> string \<Rightarrow> string list" where
  "split_js sep s = split_acc sep [] s"

text \<open>\<open>Array.prototype.join\<close>, to state what \<open>split\<close> computes.\<close>

fun join_js :: "char \<Rightarrow> string list \<Rightarrow> string" where
  "join_js sep [] = []"
| "join_js sep [s] = s"
| "join_js sep (s # t # ss) = s @ sep # join_js sep (t # ss)"

text \<open>The decimal digits of a number, as a template literal prints it.\<close>

fun string_of_nat :: "nat \<Rightarrow> string" where
  "string_of_nat n =
     (if n < 10 then [char_of (48 + n)]
      else string_of_nat (n div 10) @ [char_of (48 + n mod 10)])"

declare string_of_nat.simps [simp del]

section \<open>Data model\<close>

record checkout_config =
  apiKey :: string
  successUrl :: string
  returnUrl :: "string option"
  baseUrl :: "string option"
  defaultName :: "string option"

record checkout_query =
  products :: "string option"
  name :: "string option"
  customerId :: "string option"
  customerEmail :: "string option"
  customerName :: "string option"
  customerPhone :: "string option"
  metadata :: "string option"

record consumer =
  consumer_id :: string
  consumer_name :: jsval
  phone_number :: jsval
  email :: jsval

record list_params =
  page :: nat
  page_size :: nat
  search_term :: "string option"

record pagination_info =
  has_next_page :: bool

record consumers_page =
  data :: "consumer list option"
  pagination :: "pagination_info option"

record consumer_data =
  new_name :: string
  new_phone_number :: "string option"
  new_email :: "string option"

record line_item =
  product_id :: string
  quantity :: nat

record 'm payment_link_data =
  link_name :: string
  items :: "line_item list"
  success_redirect_url :: string
  failure_redirect_url :: string
  coupons :: "string list"
  organization_consumer_id :: "string option"
  link_metadata :: "'m option"

text \<open>
  The remote client (\<open>StreamSDK.init\<close>): every call may throw (\<open>Inl\<close>) and may change the
  state \<open>'s\<close> of the remote platform. \<open>'l\<close> is the payment link it returns, \<open>'m\<close> a parsed
  JSON value.
\<close>

record ('s, 'e, 'l, 'm) stream_client =
  listConsumers :: "list_params \<Rightarrow> 's \<Rightarrow> ('e + consumers_page) \<times> 's"
  createConsumer :: "consumer_data \<Rightarrow> 's \<Rightarrow> ('e + consumer) \<times> 's"
  createPaymentLink :: "'m payment_link_data \<Rightarrow> 's \<Rightarrow> ('e + 'l) \<times> 's"
  getPaymentUrl :: "'l \<Rightarrow> string option"

text \<open>The functions of the JavaScript runtime the handler calls; \<open>None\<close> is a throw.\<close>

record 'm runtime =
  Date_now :: nat
  decodeURIComponent :: "string \<Rightarrow> string option"
  JSON_parse :: "string \<Rightarrow> 'm option"

text \<open>The remote calls a request made, in order, kept beside the remote state.\<close>

datatype 'm call =
    ListConsumers list_params
  | CreateConsumer consumer_data
  | CreatePaymentLink "'m payment_link_data"

type_synonym ('s, 'm) world = "'s \<times> 'm call list"

datatype 'e response = Status_json nat string | Redirect string | Next 'e

section \<open>Remote calls\<close>

definition call_listConsumers ::
  "('s, 'e, 'l, 'm) stream_client \<Rightarrow> list_params \<Rightarrow> ('s, 'm) world \<Rightarrow>
   ('e + consumers_page) \<times> ('s, 'm) world" where
  "call_listConsumers client p w =
     (case w of (s, log) \<Rightarrow>
        (case listConsumers client p s of (r, s') \<Rightarrow> (r, (s', log @ [ListConsumers p]))))"

definition call_createConsumer ::
  "('s, 'e, 'l, 'm) stream_client \<Rightarrow> consumer_data \<Rightarrow> ('s, 'm) world \<Rightarrow>
   ('e + consumer) \<times> ('s, 'm) world" where
  "call_createConsumer client d w =
     (case w of (s, log) \<Rightarrow>
        (case createConsumer client d s of (r, s') \<Rightarrow> (r, (s', log @ [CreateConsumer d]))))"

definition call_createPaymentLink ::
  "('s, 'e, 'l, 'm) stream_client \<Rightarrow> 'm payment_link_data \<Rightarrow> ('s, 'm) world \<Rightarrow>
   ('e + 'l) \<times> ('s, 'm) world" where
  "call_createPaymentLink client d w =
     (case w of (s, log) \<Rightarrow>
        (case createPaymentLink client d s of (r, s') \<Rightarrow> (r, (s', log @ [CreatePaymentLink d]))))"

section \<open>The checkout handler\<close>

text \<open>Strategy 1: search by phone, keep an exact phone match; a throw is caught.\<close>

definition searchByPhone ::
  "('s, 'e, 'l, 'm) stream_client \<Rightarrow> string option \<Rightarrow> ('s, 'm) world \<Rightarrow>
   consumer option \<times> ('s, 'm) world" where
  "searchByPhone client customerPhone' w =
     (if truthy customerPhone' then
        (case call_listConsumers client
                \<lparr>page = 1, page_size = 100, search_term = customerPhone'\<rparr> w of
           (Inl searchError, w') \<Rightarrow> (None, w')
         | (Inr searchResults, w') \<Rightarrow>
             (case data searchResults of
                None \<Rightarrow> (None, w')
              | Some cs \<Rightarrow>
                  (find (\<lambda>c. phone_number c = of_query customerPhone') cs, w')))
      else (None, w))"

text \<open>Strategy 2: search by email when strategy 1 found nothing; a throw is caught.\<close>

definition searchByEmail ::
  "('s, 'e, 'l, 'm) stream_client \<Rightarrow> string option \<Rightarrow> string option \<Rightarrow>
   consumer option \<Rightarrow> ('s, 'm) world \<Rightarrow> consumer option \<times> ('s, 'm) world" where
  "searchByEmail client customerPhone' customerEmail' existingConsumer w =
     (if existingConsumer = None \<and> truthy customerEmail' then
        (case call_listConsumers client
                \<lparr>page = 1, page_size = 100, search_term = customerEmail'\<rparr> w of
           (Inl searchError, w') \<Rightarrow> (existingConsumer, w')
         | (Inr searchResults, w') \<Rightarrow>
             (case data searchResults of
                None \<Rightarrow> (None, w')
              | Some cs \<Rightarrow>
                  (find (\<lambda>c. email c = of_query customerEmail' \<or>
                              phone_number c = of_query customerPhone') cs, w')))
      else (existingConsumer, w))"

text \<open>
  Strategy 3: the \<open>while (hasMorePages && !existingConsumer)\<close> loop over the pages. The
  page fetch is not inside a \<open>try\<close>: a throw leaves the loop as \<open>Inl\<close>.
\<close>

definition page_match :: "string option \<Rightarrow> string option \<Rightarrow> consumer \<Rightarrow> bool" where
  "page_match customerPhone' customerEmail' c =
     ((truthy customerPhone' \<and> phone_number c = of_query customerPhone') \<or>
      (truthy customerEmail' \<and> email c = of_query customerEmail'))"

function paginate ::
  "('s, 'e, 'l, 'm) stream_client \<Rightarrow> string option \<Rightarrow> string option \<Rightarrow>
   nat \<Rightarrow> bool \<Rightarrow> consumer option \<Rightarrow> ('s, 'm) world \<Rightarrow>
   ('e + consumer option) \<times> ('s, 'm) world" where
  "paginate client customerPhone' customerEmail' currentPage hasMorePages existingConsumer w =
     (if hasMorePages \<and> existingConsumer = None then
        (case call_listConsumers client
                \<lparr>page = currentPage, page_size = 100, search_term = None\<rparr> w of
           (Inl err, w') \<Rightarrow> (Inl err, w')
         | (Inr consumers, w') \<Rightarrow>
             (let found = (case data consumers of
                             None \<Rightarrow> None
                           | Some cs \<Rightarrow> find (page_match customerPhone' customerEmail') cs)
              in if found \<noteq> None then (Inr found, w')
                 else
                   (let more = (case pagination consumers of
                                  None \<Rightarrow> False
                                | Some p \<Rightarrow> has_next_page p)
                    in if Suc currentPage > 50 then (Inr found, w')
                       else paginate client customerPhone' customerEmail'
                              (Suc currentPage) more found w')))
      else (Inr existingConsumer, w))"
  by pat_completeness auto
termination
  by (relation "measure (\<lambda>(client, ph, em, currentPage, more, ex, w). 51 - currentPage)") auto

declare paginate.simps [simp del]

text \<open>The three strategies in order: what \<open>existingConsumer\<close> holds after them.\<close>

definition findExisting ::
  "('s, 'e, 'l, 'm) stream_client \<Rightarrow> string option \<Rightarrow> string option \<Rightarrow>
   ('s, 'm) world \<Rightarrow> ('e + consumer option) \<times> ('s, 'm) world" where
  "findExisting client customerPhone' customerEmail' w =
     (case searchByPhone client customerPhone' w of
        (existing1, w1) \<Rightarrow>
          (case searchByEmail client customerPhone' customerEmail' existing1 w1 of
             (existing2, w2) \<Rightarrow>
               (if existing2 = None \<and> (truthy customerPhone' \<or> truthy customerEmail')
                then paginate client customerPhone' customerEmail' 1 True existing2 w2
                else (Inr existing2, w2))))"

text \<open>The object built for \<open>createConsumer\<close>.\<close>

definition consumerData :: "checkout_query \<Rightarrow> consumer_data" where
  "consumerData q =
     \<lparr>new_name = or_else (customerName q) ''Customer'',
      new_phone_number = (if truthy (customerPhone q) then customerPhone q else None),
      new_email = (if truthy (customerEmail q) then customerEmail q else None)\<rparr>"

text \<open>
  The consumer block (\<open>let consumerId = customerId; if (!consumerId && ...) { ... }\<close>):
  the value of \<open>consumerId\<close> after it, or the error thrown inside it.
\<close>

definition resolveConsumer ::
  "('s, 'e, 'l, 'm) stream_client \<Rightarrow> checkout_query \<Rightarrow> ('s, 'm) world \<Rightarrow>
   ('e + string option) \<times> ('s, 'm) world" where
  "resolveConsumer client q w =
     (let consumerId = customerId q in
      if \<not> truthy consumerId \<and> (truthy (customerPhone q) \<or> truthy (customerEmail q)) then
        (case findExisting client (customerPhone q) (customerEmail q) w of
           (Inl err, w3) \<Rightarrow> (Inl err, w3)
         | (Inr (Some existingConsumer), w3) \<Rightarrow> (Inr (Some (consumer_id existingConsumer)), w3)
         | (Inr None, w3) \<Rightarrow>
             (if truthy (customerName q) then
                (case call_createConsumer client (consumerData q) w3 of
                   (Inl err, w4) \<Rightarrow> (Inl err, w4)
                 | (Inr newConsumer, w4) \<Rightarrow> (Inr (Some (consumer_id newConsumer)), w4))
              else (Inr consumerId, w3)))
      else (Inr consumerId, w))"

text \<open>\<open>products ? products.split(',').map(id => id.trim()) : []\<close>\<close>

definition parseProductIds :: "string option \<Rightarrow> string list" where
  "parseProductIds products' =
     (if truthy products' then map trim (split_js CHR '','' (or_else products' [])) else [])"

text \<open>\<open>name || config.defaultName || `Checkout ${Date.now()}`\<close>\<close>

definition paymentLinkName :: "'m runtime \<Rightarrow> checkout_config \<Rightarrow> checkout_query \<Rightarrow> string" where
  "paymentLinkName rt config q =
     or_else (name q) (or_else (defaultName config) (''Checkout '' @ string_of_nat (Date_now rt)))"

text \<open>
  \<open>JSON.parse(decodeURIComponent(metadata))\<close> inside \<open>try\<close>: the parsed value, or nothing
  when the parameter is falsy or either call throws.
\<close>

definition parseMetadata :: "'m runtime \<Rightarrow> string option \<Rightarrow> 'm option" where
  "parseMetadata rt metadata' =
     (if truthy metadata' then
        (case decodeURIComponent rt (or_else metadata' []) of
           None \<Rightarrow> None
         | Some decoded \<Rightarrow> JSON_parse rt decoded)
      else None)"

text \<open>The object sent to \<open>createPaymentLink\<close>, given the resolved \<open>consumerId\<close>.\<close>

definition paymentLinkData ::
  "'m runtime \<Rightarrow> checkout_config \<Rightarrow> checkout_query \<Rightarrow> string option \<Rightarrow>
   'm payment_link_data" where
  "paymentLinkData rt config q consumerId =
     \<lparr>link_name = paymentLinkName rt config q,
      items = map (\<lambda>i. \<lparr>product_id = i, quantity = 1\<rparr>) (parseProductIds (products q)),
      success_redirect_url = successUrl config,
      failure_redirect_url = or_else (returnUrl config) (successUrl config),
      coupons = [],
      organization_consumer_id = (if truthy consumerId then consumerId else None),
      link_metadata = parseMetadata rt (metadata q)\<rparr>"

text \<open>
  The handler returned by \<open>Checkout(config)\<close>, for one request: the response (a JSON
  answer, a redirect, or \<open>next(error)\<close>) and the remote state with the calls made.
\<close>

definition checkout ::
  "'m runtime \<Rightarrow> checkout_config \<Rightarrow> ('s, 'e, 'l, 'm) stream_client \<Rightarrow> checkout_query \<Rightarrow>
   ('s, 'm) world \<Rightarrow> 'e response \<times> ('s, 'm) world" where
  "checkout rt config client q w =
     (if length (parseProductIds (products q)) = 0 then
        (Status_json 400 ''At least one product ID is required'', w)
      else
        (case resolveConsumer client q w of
           (Inl err, w1) \<Rightarrow> (Next err, w1)
         | (Inr consumerId, w1) \<Rightarrow>
             (case call_createPaymentLink client (paymentLinkData rt config q consumerId) w1 of
                (Inl err, w2) \<Rightarrow> (Next err, w2)
              | (Inr paymentLink, w2) \<Rightarrow>
                  (let paymentUrl = getPaymentUrl client paymentLink in
                   if \<not> truthy paymentUrl then
                     (Status_json 500 ''Failed to generate payment URL'', w2)
                   else (Redirect (or_else paymentUrl []), w2)))))"

section \<open>Reading the calls a request made\<close>

text \<open>The calls in the world an operation returns beside its result.\<close>

definition calls_of :: "'a \<times> ('s, 'm) world \<Rightarrow> 'm call list" where
  "calls_of r = snd (snd r)"

fun link_requests :: "'m call list \<Rightarrow> 'm payment_link_data list" where
  "link_requests [] = []"
| "link_requests (CreatePaymentLink d # cs) = d # link_requests cs"
| "link_requests (c # cs) = link_requests cs"

fun consumer_creations :: "'m call list \<Rightarrow> consumer_data list" where
  "consumer_creations [] = []"
| "consumer_creations (CreateConsumer d # cs) = d # consumer_creations cs"
| "consumer_creations (c # cs) = consumer_creations cs"

fun consumer_listings :: "'m call list \<Rightarrow> list_params list" where
  "consumer_listings [] = []"
| "consumer_listings (ListConsumers p # cs) = p # consumer_listings cs"
| "consumer_listings (c # cs) = consumer_listings cs"

text \<open>A page fetch of the pagination fallback carries no search term.\<close>

definition page_fetches :: "'m call list \<Rightarrow> list_params list" where
  "page_fetches cs = filter (\<lambda>p. search_term p = None) (consumer_listings cs)"


section \<open>The webhook handler\<close>

text \<open>
  Modelled from the spec: the source of \<open>Webhooks(config)\<close> is not among the files; the
  types and definitions of this section follow sections 3, 4.2 and 6 of the specification.
\<close>

datatype callback_name =
    onPaymentCreated
  | onPaymentCompleted
  | onPaymentFailed
  | onSubscriptionCreated
  | onSubscriptionUpdated
  | onSubscriptionCancelled
  | onInvoiceCreated
  | onInvoiceCompleted

text \<open>
  A callback runs on the caller's state \<open>'c\<close> and may throw (\<open>Some\<close> error). The
  configuration maps callback names to optional callbacks and has an optional catch-all.
\<close>

type_synonym ('d, 'c, 'e) callback = "'d \<Rightarrow> 'c \<Rightarrow> 'e option \<times> 'c"

record ('d, 'c, 'e) webhook_config =
  webhookApiKey :: string
  webhookSecret :: "string option"
  callbacks :: "callback_name \<Rightarrow> ('d, 'c, 'e) callback option"
  onWebhook :: "(string \<Rightarrow> ('d, 'c, 'e) callback) option"

record 'd webhook_event =
  event_type :: string
  event_data :: 'd

record webhook_request =
  raw_body :: string
  signature :: "string option"

text \<open>
  What the handler takes from outside: HMAC-SHA256 (secret, then body) and the parser of
  the body.
\<close>

record 'd webhook_runtime =
  hmac_sha256 :: "string \<Rightarrow> string \<Rightarrow> string"
  parse_body :: "string \<Rightarrow> 'd webhook_event"

datatype 'd invocation = Specific callback_name 'd | CatchAll string 'd

datatype 'e webhook_response = Ack nat | Unauthorized nat | NextError 'e

text \<open>Modelled from the spec: the event-name table of section 6 (the dispatch code is missing).\<close>

definition callback_for :: "string \<Rightarrow> callback_name option" where
  "callback_for ev =
     (if ev = ''payment.created'' then Some onPaymentCreated
      else if ev = ''payment.completed'' \<or> ev = ''payment.paid'' then Some onPaymentCompleted
      else if ev = ''payment.failed'' then Some onPaymentFailed
      else if ev = ''subscription.created'' then Some onSubscriptionCreated
      else if ev = ''subscription.updated'' then Some onSubscriptionUpdated
      else if ev = ''subscription.cancelled'' then Some onSubscriptionCancelled
      else if ev = ''invoice.created'' then Some onInvoiceCreated
      else if ev = ''invoice.paid'' then Some onInvoiceCompleted
      else None)"

text \<open>
  Modelled from the spec: step 1 of section 4.2, the signature check (the handler is
  missing). Without a configured secret nothing is checked.
\<close>

definition verified :: "'d webhook_runtime \<Rightarrow> ('d, 'c, 'e) webhook_config \<Rightarrow> webhook_request \<Rightarrow> bool" where
  "verified rt config req =
     (case webhookSecret config of
        None \<Rightarrow> True
      | Some secret \<Rightarrow> signature req = Some (hmac_sha256 rt secret (raw_body req)))"

text \<open>
  Modelled from the spec: steps 3 and 4 of section 4.2 (the handler is missing): the
  specific callback of the event, when one is registered, and its outcome, with the
  invocations made.
\<close>

definition invoke_specific ::
  "('d, 'c, 'e) webhook_config \<Rightarrow> 'd webhook_event \<Rightarrow> 'c \<times> 'd invocation list \<Rightarrow>
   'e option \<times> 'c \<times> 'd invocation list" where
  "invoke_specific config ev w =
     (case w of (c, log) \<Rightarrow>
        (case callback_for (event_type ev) of
           None \<Rightarrow> (None, (c, log))
         | Some n \<Rightarrow>
             (case callbacks config n of
                None \<Rightarrow> (None, (c, log))
              | Some cb \<Rightarrow>
                  (case cb (event_data ev) c of
                     (r, c') \<Rightarrow> (r, (c', log @ [Specific n (event_data ev)]))))))"

text \<open>
  Modelled from the spec: step 4 of section 4.2 (the handler is missing): the catch-all
  callback, when one is registered, run on the event name and the payload.
\<close>

definition invoke_catch_all ::
  "('d, 'c, 'e) webhook_config \<Rightarrow> 'd webhook_event \<Rightarrow> 'c \<times> 'd invocation list \<Rightarrow>
   'e option \<times> 'c \<times> 'd invocation list" where
  "invoke_catch_all config ev w =
     (case w of (c, log) \<Rightarrow>
        (case onWebhook config of
           None \<Rightarrow> (None, (c, log))
         | Some cb \<Rightarrow>
             (case cb (event_type ev) (event_data ev) c of
                (r, c') \<Rightarrow> (r, (c', log @ [CatchAll (event_type ev) (event_data ev)])))))"

text \<open>
  Modelled from the spec: the per-request algorithm of section 4.2 (the handler is
  missing): 401 before anything else when the signature does not verify; then the
  specific callback, then the catch-all whatever the specific one did; the first error
  thrown goes to the framework, otherwise the answer is 200.
\<close>

definition webhooks ::
  "'d webhook_runtime \<Rightarrow> ('d, 'c, 'e) webhook_config \<Rightarrow> webhook_request \<Rightarrow>
   'c \<times> 'd invocation list \<Rightarrow> 'e webhook_response \<times> 'c \<times> 'd invocation list" where
  "webhooks rt config req w =
     (if \<not> verified rt config req then (Unauthorized 401, w)
      else
        (let ev = parse_body rt (raw_body req) in
         case invoke_specific config ev w of
           (r1, w1) \<Rightarrow>
             (case invoke_catch_all config ev w1 of
                (r2, w2) \<Rightarrow>
                  (case r1 of
                     Some err \<Rightarrow> (NextError err, w2)
                   | None \<Rightarrow>
                       (case r2 of
                          Some err \<Rightarrow> (NextError err, w2)
                        | None \<Rightarrow> (Ack 200, w2))))))"

text \<open>How often a callback was invoked.\<close>

fun invoked :: "callback_name \<Rightarrow> 'd invocation \<Rightarrow> bool" where
  "invoked n (Specific n' d) = (n = n')"
| "invoked n (CatchAll ev d) = False"

section \<open>Concrete requests and remotes\<close>

text \<open>
  A runtime for the examples: it decodes escapes of ASCII characters only and parses
  only the JSON text of the empty object (as the empty list of members); on the inputs
  of the examples JavaScript does the same.
\<close>

fun hex_val :: "char \<Rightarrow> nat option" where
  "hex_val c =
     (let n = of_char c in
      if 48 \<le> n \<and> n \<le> 57 then Some (n - 48)
      else if 65 \<le> n \<and> n \<le> 70 then Some (n - 55)
      else if 97 \<le> n \<and> n \<le> 102 then Some (n - 87)
      else None)"

fun decode_ascii :: "string \<Rightarrow> string option" where
  "decode_ascii [] = Some []"
| "decode_ascii (c # cs) =
     (if c = CHR ''%'' then
        (case cs of
           h1 # h2 # rest \<Rightarrow>
             (case (hex_val h1, hex_val h2) of
                (Some a, Some b) \<Rightarrow>
                  (if 16 * a + b < 128
                   then map_option ((#) (char_of (16 * a + b))) (decode_ascii rest)
                   else None)
              | _ \<Rightarrow> None)
         | _ \<Rightarrow> None)
      else map_option ((#) c) (decode_ascii cs))"

definition example_runtime :: "(string \<times> string) list runtime" where
  "example_runtime =
     \<lparr>Date_now = 1700000000000,
      decodeURIComponent = decode_ascii,
      JSON_parse = (\<lambda>s. if s = ''{}'' then Some [] else None)\<rparr>"

definition example_config :: checkout_config where
  "example_config =
     \<lparr>apiKey = ''key'', successUrl = ''https://myapp.com/success'',
      returnUrl = Some ''https://myapp.com/cancel'', baseUrl = None,
      defaultName = Some ''Store Checkout''\<rparr>"

text \<open>
  A remote whose consumer directory answers by the function \<open>dir\<close>; its state counts the
  calls received. New consumers get the id \<open>cons_new\<close>, payment links one URL.
\<close>

definition example_client ::
  "(list_params \<Rightarrow> string + consumers_page) \<Rightarrow>
   (nat, string, string, (string \<times> string) list) stream_client" where
  "example_client dir =
     \<lparr>listConsumers = (\<lambda>p s. (dir p, Suc s)),
      createConsumer = (\<lambda>d s.
        (Inr \<lparr>consumer_id = ''cons_new'', consumer_name = Str (new_name d),
              phone_number = of_query (new_phone_number d),
              email = of_query (new_email d)\<rparr>, Suc s)),
      createPaymentLink = (\<lambda>d s. (Inr ''https://pay.example/link_1'', Suc s)),
      getPaymentUrl = Some\<rparr>"

definition no_query :: checkout_query where
  "no_query =
     \<lparr>products = None, name = None, customerId = None, customerEmail = None,
      customerName = None, customerPhone = None, metadata = None\<rparr>"

text \<open>An empty directory; one that always has a next page; one whose every call throws.\<close>

definition dir_empty :: "list_params \<Rightarrow> string + consumers_page" where
  "dir_empty p = Inr \<lparr>data = Some [], pagination = Some \<lparr>has_next_page = False\<rparr>\<rparr>"

definition dir_unbounded :: "list_params \<Rightarrow> string + consumers_page" where
  "dir_unbounded p = Inr \<lparr>data = Some [], pagination = Some \<lparr>has_next_page = True\<rparr>\<rparr>"

definition dir_down :: "list_params \<Rightarrow> string + consumers_page" where
  "dir_down p = Inl ''ECONNRESET''"

text \<open>A directory whose search throws and whose pages are empty.\<close>

definition dir_search_down :: "list_params \<Rightarrow> string + consumers_page" where
  "dir_search_down p =
     (if search_term p \<noteq> None then Inl ''search unavailable'' else dir_empty p)"

text \<open>A directory whose search finds nothing and whose page fetches throw.\<close>

definition dir_pages_down :: "list_params \<Rightarrow> string + consumers_page" where
  "dir_pages_down p =
     (if search_term p \<noteq> None then dir_empty p else Inl ''page unavailable'')"

text \<open>
  A directory whose search returns a loose match: a consumer with neither phone number
  nor email.
\<close>

definition bare_consumer :: consumer where
  "bare_consumer =
     \<lparr>consumer_id = ''cons_bare'', consumer_name = Str ''Walk-in'',
      phone_number = Undefined, email = Undefined\<rparr>"

definition dir_loose :: "list_params \<Rightarrow> string + consumers_page" where
  "dir_loose p =
     (if search_term p \<noteq> None
      then Inr \<lparr>data = Some [bare_consumer], pagination = Some \<lparr>has_next_page = False\<rparr>\<rparr>
      else dir_empty p)"

text \<open>
  A webhook endpoint for the examples. The body is an event name, a space and the payload;
  the MAC is a stand-in (the secret followed by the body). The caller's state is the list
  of payloads its \<open>onPaymentCompleted\<close> callback has handled.
\<close>

definition example_webhook_runtime :: "string webhook_runtime" where
  "example_webhook_runtime =
     \<lparr>hmac_sha256 = (\<lambda>secret body. secret @ body),
      parse_body = (\<lambda>body.
        \<lparr>event_type = takeWhile (\<lambda>c. c \<noteq> CHR '' '') body,
         event_data = drop 1 (dropWhile (\<lambda>c. c \<noteq> CHR '' '') body)\<rparr>)\<rparr>"

definition example_webhook_config :: "(string, string list, string) webhook_config" where
  "example_webhook_config =
     \<lparr>webhookApiKey = ''key'', webhookSecret = Some ''whsec_'',
      callbacks = (\<lambda>n. if n = onPaymentCompleted then Some (\<lambda>d c. (None, c @ [d])) else None),
      onWebhook = Some (\<lambda>ev d c. (None, c))\<rparr>"

section \<open>Evaluating the handler on the concrete requests\<close>

lemmas call_defs = call_listConsumers_def call_createConsumer_def call_createPaymentLink_def

lemmas example_defs = example_runtime_def example_config_def example_client_def no_query_def
  dir_empty_def dir_unbounded_def dir_down_def dir_search_down_def dir_pages_down_def
  dir_loose_def bare_consumer_def

lemmas handler_defs = checkout_def resolveConsumer_def findExisting_def searchByPhone_def
  searchByEmail_def parseProductIds_def paymentLinkData_def paymentLinkName_def
  parseMetadata_def consumerData_def split_js_def trim_def isWhiteSpace_def

section \<open>The calls of each operation\<close>

lemma calls_of_simp [simp]: "calls_of (r, s, log) = log"
  by (simp add: calls_of_def)

lemma link_requests_append [simp]: "link_requests (xs @ ys) = link_requests xs @ link_requests ys"
  by (induction xs rule: link_requests.induct) simp_all

lemma consumer_creations_append [simp]:
  "consumer_creations (xs @ ys) = consumer_creations xs @ consumer_creations ys"
  by (induction xs rule: consumer_creations.induct) simp_all

lemma consumer_listings_append [simp]:
  "consumer_listings (xs @ ys) = consumer_listings xs @ consumer_listings ys"
  by (induction xs rule: consumer_listings.induct) simp_all

lemma page_fetches_append [simp]: "page_fetches (xs @ ys) = page_fetches xs @ page_fetches ys"
  by (simp add: page_fetches_def)

lemma link_requests_listings [simp]: "link_requests (map ListConsumers ps) = []"
  by (induction ps) simp_all

lemma consumer_creations_listings [simp]: "consumer_creations (map ListConsumers ps) = []"
  by (induction ps) simp_all

lemma consumer_listings_listings [simp]: "consumer_listings (map ListConsumers ps) = ps"
  by (induction ps) simp_all

lemma call_listConsumers_calls:
  "calls_of (call_listConsumers client p w) = snd w @ [ListConsumers p]"
  by (simp add: call_listConsumers_def calls_of_def split: prod.splits)

lemma call_listConsumers_world:
  "call_listConsumers client p w = (r, w') \<Longrightarrow> snd w' = snd w @ [ListConsumers p]"
  by (auto simp: call_listConsumers_def split: prod.splits)

lemma call_createConsumer_world:
  "call_createConsumer client d w = (r, w') \<Longrightarrow> snd w' = snd w @ [CreateConsumer d]"
  by (auto simp: call_createConsumer_def split: prod.splits)

lemma call_createPaymentLink_world:
  "call_createPaymentLink client d w = (r, w') \<Longrightarrow> snd w' = snd w @ [CreatePaymentLink d]"
  by (auto simp: call_createPaymentLink_def split: prod.splits)

lemma searchByPhone_world:
  "searchByPhone client ph w = (r, w') \<Longrightarrow>
   snd w' = snd w @ (if truthy ph
     then [ListConsumers \<lparr>page = 1, page_size = 100, search_term = ph\<rparr>] else [])"
  by (auto simp: searchByPhone_def split: if_splits prod.splits sum.splits option.splits
      dest: call_listConsumers_world)

lemma searchByEmail_world:
  "searchByEmail client ph em ex w = (r, w') \<Longrightarrow>
   snd w' = snd w @ (if ex = None \<and> truthy em
     then [ListConsumers \<lparr>page = 1, page_size = 100, search_term = em\<rparr>] else [])"
  by (auto simp: searchByEmail_def split: if_splits prod.splits sum.splits option.splits
      dest: call_listConsumers_world)

lemma paginate_world:
  "currentPage \<le> 50 \<Longrightarrow> paginate client ph em currentPage hasMore ex w = (r, w') \<Longrightarrow>
   \<exists>ps. snd w' = snd w @ map ListConsumers ps \<and> length ps \<le> 51 - currentPage \<and>
        (\<forall>p\<in>set ps. search_term p = None)"
proof (induction client ph em currentPage hasMore ex w rule: paginate.induct)
  case (1 client ph em currentPage hasMore ex w)
  show ?case
  proof (cases "hasMore \<and> ex = None")
    case False
    with "1.prems" have "w' = w"
      by (auto simp: paginate.simps)
    then show ?thesis by (intro exI [of _ "[]"]) simp
  next
    case True
    let ?p = "\<lparr>page = currentPage, page_size = 100, search_term = None\<rparr>"
    obtain res w1 where call: "call_listConsumers client ?p w = (res, w1)"
      by (cases "call_listConsumers client ?p w")
    have w1: "snd w1 = snd w @ [ListConsumers ?p]"
      using call by (rule call_listConsumers_world)
    show ?thesis
    proof (cases res)
      case (Inl err)
      with "1.prems" True call have "w' = w1"
        by (simp add: paginate.simps)
      with w1 "1.prems"(1) show ?thesis by (intro exI [of _ "[?p]"]) simp
    next
      case (Inr consumers)
      let ?found = "case data consumers of None \<Rightarrow> None
                    | Some cs \<Rightarrow> find (page_match ph em) cs"
      let ?hm = "case pagination consumers of None \<Rightarrow> False | Some p \<Rightarrow> has_next_page p"
      show ?thesis
      proof (cases "?found \<noteq> None \<or> Suc currentPage > 50")
        case stop: True
        with "1.prems" True call Inr have "w' = w1"
          by (auto simp: paginate.simps [of client ph em currentPage] Let_def split: if_splits)
        with w1 "1.prems"(1) show ?thesis by (intro exI [of _ "[?p]"]) simp
      next
        case go: False
        then have next_le: "Suc currentPage \<le> 50" and nf: "?found = None" by auto
        have rec: "paginate client ph em (Suc currentPage) ?hm ?found w1 = (r, w')"
          using "1.prems"(2) True call Inr go
          by (simp add: paginate.simps [of client ph em currentPage] Let_def)
        from "1.IH" [OF True call [symmetric] Inr refl _ refl _ next_le rec] go
        obtain ps where ps: "snd w' = snd w1 @ map ListConsumers ps"
          "length ps \<le> 51 - Suc currentPage" "\<forall>p\<in>set ps. search_term p = None"
          by auto
        show ?thesis
          using ps w1 next_le by (intro exI [of _ "?p # ps"]) auto
      qed
    qed
  qed
qed

section \<open>Product identifiers\<close>

text \<open>
  C1 (as amended). When the \<open>products\<close> parameter is absent or the empty string, the
  handler answers 400 with the error "At least one product ID is required" and leaves
  the remote state and the list of calls as they were: no remote call is made.
\<close>

theorem C1_missing_products_rejected:
  assumes "products q = None \<or> products q = Some []"
  shows "checkout rt config client q w =
           (Status_json 400 ''At least one product ID is required'', w)"
  using assms by (auto simp: checkout_def parseProductIds_def)

text \<open>The amended C1 at the request \<open>?products=\<close> on a remote whose every call throws.\<close>

theorem C1_missing_products_rejected_witness:
  "checkout example_runtime example_config (example_client dir_down)
     (no_query\<lparr>products := Some []\<rparr>) (0, []) =
   (Status_json 400 ''At least one product ID is required'', (0, []))"
  using C1_missing_products_rejected
    [where q = "no_query\<lparr>products := Some []\<rparr>" and rt = example_runtime
       and config = example_config and client = "example_client dir_down" and w = "(0, [])"]
  by simp

text \<open>
  C1 as stated fails: for \<open>products\<close> made of a space, a comma and a space the list of
  identifiers is two empty strings, its length is not 0, and the handler creates a payment
  link for two items with empty product id and redirects.
\<close>

theorem C1_blank_products_counterexample:
  "checkout example_runtime example_config (example_client dir_empty)
     (no_query\<lparr>products := Some '' , ''\<rparr>) (0, []) =
   (Redirect ''https://pay.example/link_1'',
    (1, [CreatePaymentLink
          \<lparr>link_name = ''Store Checkout'',
           items = [\<lparr>product_id = [], quantity = 1\<rparr>, \<lparr>product_id = [], quantity = 1\<rparr>],
           success_redirect_url = ''https://myapp.com/success'',
           failure_redirect_url = ''https://myapp.com/cancel'', coupons = [],
           organization_consumer_id = None, link_metadata = None\<rparr>]))"
  by (simp add: handler_defs call_defs example_defs)

section \<open>The email search\<close>

text \<open>
  C2 does not hold of the code: the request has \<open>customerEmail\<close> and no \<open>customerPhone\<close>,
  the search returns a consumer with neither email nor phone number, and strategy 2
  accepts it (\<open>c.phone_number === customerPhone\<close> compares two absent values): its id is
  attached to the payment link.
\<close>

theorem C2_email_search_accepts_consumer_without_fields:
  "checkout example_runtime example_config (example_client dir_loose)
     (no_query\<lparr>products := Some ''prod_1'', customerEmail := Some ''a@x.sa''\<rparr>) (0, []) =
   (Redirect ''https://pay.example/link_1'',
    (2, [ListConsumers \<lparr>page = 1, page_size = 100, search_term = Some ''a@x.sa''\<rparr>,
         CreatePaymentLink
          \<lparr>link_name = ''Store Checkout'',
           items = [\<lparr>product_id = ''prod_1'', quantity = 1\<rparr>],
           success_redirect_url = ''https://myapp.com/success'',
           failure_redirect_url = ''https://myapp.com/cancel'', coupons = [],
           organization_consumer_id = Some ''cons_bare'', link_metadata = None\<rparr>]))"
  by (simp add: handler_defs call_defs example_defs)

section \<open>The calls of a whole request\<close>

lemma findExisting_world:
  "findExisting client ph em w = (r, w') \<Longrightarrow>
   \<exists>ps. snd w' = snd w @ map ListConsumers ps \<and>
        length (filter (\<lambda>p. search_term p = None) ps) \<le> 50"
proof -
  assume fe: "findExisting client ph em w = (r, w')"
  obtain e1 w1 where s1: "searchByPhone client ph w = (e1, w1)"
    by (cases "searchByPhone client ph w")
  obtain e2 w2 where s2: "searchByEmail client ph em e1 w1 = (e2, w2)"
    by (cases "searchByEmail client ph em e1 w1")
  let ?p1 = "if truthy ph
     then [\<lparr>page = 1, page_size = 100, search_term = ph\<rparr>] else []"
  let ?p2 = "if e1 = None \<and> truthy em
     then [\<lparr>page = 1, page_size = 100, search_term = em\<rparr>] else []"
  have w1: "snd w1 = snd w @ map ListConsumers ?p1"
    using searchByPhone_world [OF s1] by simp
  have w2: "snd w2 = snd w1 @ map ListConsumers ?p2"
    using searchByEmail_world [OF s2] by simp
  have f1: "filter (\<lambda>p. search_term p = None) ?p1 = []"
    by (cases ph) auto
  have f2: "filter (\<lambda>p. search_term p = None) ?p2 = []"
    by (cases em) auto
  show ?thesis
  proof (cases "e2 = None \<and> (truthy ph \<or> truthy em)")
    case True
    with fe s1 s2 have "paginate client ph em 1 True e2 w2 = (r, w')"
      by (simp add: findExisting_def)
    from paginate_world [OF _ this]
    obtain ps where ps: "snd w' = snd w2 @ map ListConsumers ps" "length ps \<le> 50"
      "\<forall>p\<in>set ps. search_term p = None"
      by auto
    have "length (filter (\<lambda>p. search_term p = None) ps) \<le> 50"
      by (rule le_trans [OF length_filter_le ps(2)])
    then have "length (filter (\<lambda>p. search_term p = None) (?p1 @ ?p2 @ ps)) \<le> 50"
      using f1 f2 by (simp only: filter_append) simp
    moreover have "snd w' = snd w @ map ListConsumers (?p1 @ ?p2 @ ps)"
      using ps(1) w1 w2 by (simp only: map_append) simp
    ultimately show ?thesis by blast
  next
    case False
    with fe s1 s2 have "w' = w2"
      by (auto simp: findExisting_def)
    moreover have "length (filter (\<lambda>p. search_term p = None) (?p1 @ ?p2)) \<le> 50"
      using f1 f2 by (simp only: filter_append) simp
    moreover have "snd w2 = snd w @ map ListConsumers (?p1 @ ?p2)"
      using w1 w2 by (simp only: map_append) simp
    ultimately show ?thesis by blast
  qed
qed

lemma resolveConsumer_world:
  "resolveConsumer client q w = (r, w') \<Longrightarrow>
   \<exists>ps cs. snd w' = snd w @ map ListConsumers ps @ map CreateConsumer cs \<and>
        length (filter (\<lambda>p. search_term p = None) ps) \<le> 50 \<and> length cs \<le> 1"
proof -
  assume rc: "resolveConsumer client q w = (r, w')"
  show ?thesis
  proof (cases "\<not> truthy (customerId q) \<and> (truthy (customerPhone q) \<or> truthy (customerEmail q))")
    case False
    with rc have "w' = w" by (auto simp: resolveConsumer_def)
    then show ?thesis by (intro exI [of _ "[]"]) simp
  next
    case True
    obtain fr w3 where fe: "findExisting client (customerPhone q) (customerEmail q) w = (fr, w3)"
      by (cases "findExisting client (customerPhone q) (customerEmail q) w")
    from findExisting_world [OF fe]
    obtain ps where ps: "snd w3 = snd w @ map ListConsumers ps"
      "length (filter (\<lambda>p. search_term p = None) ps) \<le> 50"
      by auto
    show ?thesis
    proof (cases "fr = Inr None \<and> truthy (customerName q)")
      case False
      with rc True fe have "w' = w3"
        by (auto simp: resolveConsumer_def split: sum.splits option.splits if_splits)
      with ps show ?thesis
        by (intro exI [of _ ps] exI [of _ "[]"]) simp
    next
      case cr: True
      obtain cres w4 where cc: "call_createConsumer client (consumerData q) w3 = (cres, w4)"
        by (cases "call_createConsumer client (consumerData q) w3")
      with rc True fe cr have "w' = w4"
        by (auto simp: resolveConsumer_def split: sum.splits)
      with call_createConsumer_world [OF cc] ps show ?thesis
        by (intro exI [of _ ps] exI [of _ "[consumerData q]"]) simp
    qed
  qed
qed

lemma checkout_world:
  "checkout rt config client q w = (r, w') \<Longrightarrow>
   \<exists>ps cs ds. snd w' = snd w @ map ListConsumers ps @ map CreateConsumer cs @
                   map CreatePaymentLink ds \<and>
        length (filter (\<lambda>p. search_term p = None) ps) \<le> 50 \<and> length cs \<le> 1 \<and>
        length ds \<le> 1"
proof -
  assume co: "checkout rt config client q w = (r, w')"
  show ?thesis
  proof (cases "length (parseProductIds (products q)) = 0")
    case True
    with co have "w' = w" by (simp add: checkout_def)
    then show ?thesis by (intro exI [of _ "[]"]) simp
  next
    case False
    obtain rr w1 where rc: "resolveConsumer client q w = (rr, w1)"
      by (cases "resolveConsumer client q w")
    from resolveConsumer_world [OF rc]
    obtain ps cs where pc: "snd w1 = snd w @ map ListConsumers ps @ map CreateConsumer cs"
      "length (filter (\<lambda>p. search_term p = None) ps) \<le> 50" "length cs \<le> 1"
      by auto
    show ?thesis
    proof (cases rr)
      case (Inl err)
      with co False rc have "w' = w1" by (simp add: checkout_def)
      with pc show ?thesis
        by (intro exI [of _ ps] exI [of _ cs] exI [of _ "[]"]) simp
    next
      case (Inr consumerId)
      let ?d = "paymentLinkData rt config q consumerId"
      obtain lr w2 where cl: "call_createPaymentLink client ?d w1 = (lr, w2)"
        by (cases "call_createPaymentLink client ?d w1")
      with co False rc Inr have "w' = w2"
        by (auto simp: checkout_def Let_def split: sum.splits if_splits)
      with call_createPaymentLink_world [OF cl] pc show ?thesis
        by (intro exI [of _ ps] exI [of _ cs] exI [of _ "[?d]"]) simp
    qed
  qed
qed

lemma consumer_listings_creations [simp]: "consumer_listings (map CreateConsumer cs) = []"
  by (induction cs) simp_all

lemma consumer_listings_links [simp]: "consumer_listings (map CreatePaymentLink ds) = []"
  by (induction ds) simp_all

lemma consumer_creations_links [simp]: "consumer_creations (map CreatePaymentLink ds) = []"
  by (induction ds) simp_all

lemma consumer_creations_creations [simp]: "consumer_creations (map CreateConsumer cs) = cs"
  by (induction cs) simp_all

lemma link_requests_creations [simp]: "link_requests (map CreateConsumer cs) = []"
  by (induction cs) simp_all

lemma link_requests_links [simp]: "link_requests (map CreatePaymentLink ds) = ds"
  by (induction ds) simp_all

lemma page_fetches_listings [simp]:
  "page_fetches (map ListConsumers ps) = filter (\<lambda>p. search_term p = None) ps"
  by (simp add: page_fetches_def)

lemma page_fetches_creations [simp]: "page_fetches (map CreateConsumer cs) = []"
  by (simp add: page_fetches_def)

lemma page_fetches_links [simp]: "page_fetches (map CreatePaymentLink ds) = []"
  by (simp add: page_fetches_def)

section \<open>A directory without end\<close>

lemma find_None_iff_set: "(find P xs = None) = (\<forall>x\<in>set xs. \<not> P x)"
  by (induction xs) auto

lemma paginate_unbounded:
  assumes unb: "\<And>p s. search_term p = None \<Longrightarrow>
       \<exists>cs s'. listConsumers client p s =
                 (Inr \<lparr>data = Some cs, pagination = Some \<lparr>has_next_page = True\<rparr>\<rparr>, s') \<and>
               find (page_match ph em) cs = None"
  shows "d = 50 - n \<Longrightarrow> n \<le> 50 \<Longrightarrow>
         \<exists>w'. paginate client ph em n True None w = (Inr None, w') \<and>
              snd w' = snd w @
                map (\<lambda>k. ListConsumers \<lparr>page = k, page_size = 100, search_term = None\<rparr>)
                  [n..<51]"
proof (induction d arbitrary: n w)
  case 0
  then have n: "n = 50" by simp
  let ?p = "\<lparr>page = 50, page_size = 100, search_term = None\<rparr>"
  obtain s lg where w: "w = (s, lg)" by (cases w)
  from unb [of ?p s] obtain cs s' where
    l: "listConsumers client ?p s =
          (Inr \<lparr>data = Some cs, pagination = Some \<lparr>has_next_page = True\<rparr>\<rparr>, s')"
    and nf: "find (page_match ph em) cs = None"
    by auto
  have "paginate client ph em 50 True None w = (Inr None, (s', lg @ [ListConsumers ?p]))"
    by (simp add: paginate.simps [of client ph em 50] call_listConsumers_def w l nf)
  then show ?case by (simp add: n w upt_rec)
next
  case (Suc d)
  then have n: "Suc n \<le> 50" "d = 50 - Suc n" by simp_all
  let ?p = "\<lparr>page = n, page_size = 100, search_term = None\<rparr>"
  obtain s lg where w: "w = (s, lg)" by (cases w)
  from unb [of ?p s] obtain cs s' where
    l: "listConsumers client ?p s =
          (Inr \<lparr>data = Some cs, pagination = Some \<lparr>has_next_page = True\<rparr>\<rparr>, s')"
    and nf: "find (page_match ph em) cs = None"
    by auto
  have step: "paginate client ph em n True None w =
              paginate client ph em (Suc n) True None (s', lg @ [ListConsumers ?p])"
    using n(1) by (simp add: paginate.simps [of client ph em n] call_listConsumers_def w l nf)
  from Suc.IH [OF n(2) n(1), of "(s', lg @ [ListConsumers ?p])"]
  obtain w' where w': "paginate client ph em (Suc n) True None (s', lg @ [ListConsumers ?p]) =
      (Inr None, w')"
    "snd w' = (lg @ [ListConsumers ?p]) @
       map (\<lambda>k. ListConsumers \<lparr>page = k, page_size = 100, search_term = None\<rparr>) [Suc n..<51]"
    by auto
  have "[n..<51] = n # [Suc n..<51]"
    using n(1) by (simp add: upt_rec [of n])
  with step w' show ?case by (simp add: w)
qed

lemma findExisting_unbounded:
  assumes unb: "\<And>p s. \<exists>cs s'. listConsumers client p s =
                 (Inr \<lparr>data = Some cs, pagination = Some \<lparr>has_next_page = True\<rparr>\<rparr>, s') \<and>
               (\<forall>c\<in>set cs. phone_number c \<noteq> of_query ph \<and> email c \<noteq> of_query em)"
    and some: "truthy ph \<or> truthy em"
  shows "\<exists>w'. findExisting client ph em w = (Inr None, w') \<and>
           length (page_fetches (snd w')) = length (page_fetches (snd w)) + 50 \<and>
           consumer_creations (snd w') = consumer_creations (snd w) \<and>
           link_requests (snd w') = link_requests (snd w)"
proof -
  have s1: "fst (searchByPhone client ph w1) = None" for w1
  proof (cases w1)
    case (Pair s lg)
    from unb [of "\<lparr>page = 1, page_size = 100, search_term = ph\<rparr>" s] show ?thesis
      by (auto simp: searchByPhone_def call_listConsumers_def Pair find_None_iff_set)
  qed
  have s2: "fst (searchByEmail client ph em None w1) = None" for w1
  proof (cases w1)
    case (Pair s lg)
    from unb [of "\<lparr>page = 1, page_size = 100, search_term = em\<rparr>" s] show ?thesis
      by (auto simp: searchByEmail_def call_listConsumers_def Pair find_None_iff_set)
  qed
  obtain w1 where w1: "searchByPhone client ph w = (None, w1)"
    using s1 [of w] by (cases "searchByPhone client ph w") auto
  obtain w2 where w2: "searchByEmail client ph em None w1 = (None, w2)"
    using s2 [of w1] by (cases "searchByEmail client ph em None w1") auto
  have pm: "\<exists>cs s'. listConsumers client p s =
                 (Inr \<lparr>data = Some cs, pagination = Some \<lparr>has_next_page = True\<rparr>\<rparr>, s') \<and>
               find (page_match ph em) cs = None" for p s
    using unb [of p s] by (auto simp: find_None_iff_set page_match_def)
  from paginate_unbounded [where client = client and ph = ph and em = em and n = 1 and w = w2,
      OF pm refl]
  obtain w' where w': "paginate client ph em 1 True None w2 = (Inr None, w')"
    "snd w' = snd w2 @
       map (\<lambda>k. ListConsumers \<lparr>page = k, page_size = 100, search_term = None\<rparr>) [1..<51]"
    by auto
  have fe: "findExisting client ph em w = (Inr None, w')"
    using some w1 w2 w' by (simp add: findExisting_def)
  have l1: "snd w1 = snd w @ (if truthy ph
     then [ListConsumers \<lparr>page = 1, page_size = 100, search_term = ph\<rparr>] else [])"
    by (rule searchByPhone_world [OF w1])
  have l2: "snd w2 = snd w1 @ (if truthy em
     then [ListConsumers \<lparr>page = 1, page_size = 100, search_term = em\<rparr>] else [])"
    using searchByEmail_world [OF w2] by simp
  have nph: "truthy ph \<Longrightarrow> ph \<noteq> None" and nem: "truthy em \<Longrightarrow> em \<noteq> None"
    by (cases ph, simp_all) (cases em, simp_all)
  have pf: "page_fetches (map (\<lambda>k. ListConsumers \<lparr>page = k, page_size = 100, search_term = None\<rparr>) xs)
       = map (\<lambda>k. \<lparr>page = k, page_size = 100, search_term = None\<rparr>) xs" for xs :: "nat list"
    by (induction xs) (simp_all add: page_fetches_def)
  have pf1: "page_fetches [ListConsumers p] = (if search_term p = None then [p] else [])"
    for p :: list_params
    by (simp add: page_fetches_def)
  have pf0: "page_fetches [] = []"
    by (simp add: page_fetches_def)
  have cr: "consumer_creations (map (\<lambda>k. ListConsumers \<lparr>page = k, page_size = 100, search_term = None\<rparr>) xs)
       = []" for xs :: "nat list"
    by (induction xs) simp_all
  have lr: "link_requests (map (\<lambda>k. ListConsumers \<lparr>page = k, page_size = 100, search_term = None\<rparr>) xs)
       = []" for xs :: "nat list"
    by (induction xs) simp_all
  have "length (page_fetches (snd w')) = length (page_fetches (snd w)) + 50"
    using nph nem by (auto simp: w'(2) l2 l1 pf pf1 pf0)
  moreover have "consumer_creations (snd w') = consumer_creations (snd w)"
    by (simp add: w'(2) l2 l1 cr)
  moreover have "link_requests (snd w') = link_requests (snd w)"
    by (simp add: w'(2) l2 l1 lr)
  ultimately show ?thesis using fe by blast
qed

section \<open>The steps of the handler\<close>

lemma split_acc_not_Nil: "split_acc sep acc s \<noteq> []"
  by (induction s arbitrary: acc) simp_all

lemma parseProductIds_truthy: "truthy p \<Longrightarrow> parseProductIds p \<noteq> []"
  by (simp add: parseProductIds_def split_js_def split_acc_not_Nil)

lemma parseProductIds_Some:
  "s \<noteq> [] \<Longrightarrow> parseProductIds (Some s) = map trim (split_js CHR '','' s)"
  by (simp add: parseProductIds_def)

lemma paymentLinkData_falsy:
  "\<not> truthy cid \<Longrightarrow> paymentLinkData rt config q cid = paymentLinkData rt config q None"
  by (simp add: paymentLinkData_def)

lemma resolveConsumer_supplied:
  "truthy (customerId q) \<Longrightarrow> resolveConsumer client q w = (Inr (customerId q), w)"
  by (simp add: resolveConsumer_def)

lemma resolveConsumer_no_details:
  "\<not> truthy (customerPhone q) \<Longrightarrow> \<not> truthy (customerEmail q) \<Longrightarrow>
   resolveConsumer client q w = (Inr (customerId q), w)"
  by (simp add: resolveConsumer_def)

lemma resolveConsumer_unmatched:
  "\<not> truthy (customerId q) \<Longrightarrow> truthy (customerPhone q) \<or> truthy (customerEmail q) \<Longrightarrow>
   findExisting client (customerPhone q) (customerEmail q) w = (Inr None, w3) \<Longrightarrow>
   resolveConsumer client q w =
     (if truthy (customerName q) then
        (case call_createConsumer client (consumerData q) w3 of
           (Inl err, w4) \<Rightarrow> (Inl err, w4)
         | (Inr newConsumer, w4) \<Rightarrow> (Inr (Some (consumer_id newConsumer)), w4))
      else (Inr (customerId q), w3))"
  by (simp add: resolveConsumer_def)

text \<open>The calls of the last step: the payment link is requested once the consumer block returns.\<close>

lemma checkout_after_resolve:
  "parseProductIds (products q) \<noteq> [] \<Longrightarrow> resolveConsumer client q w = (Inr cid, w1) \<Longrightarrow>
   calls_of (checkout rt config client q w) =
     snd w1 @ [CreatePaymentLink (paymentLinkData rt config q cid)]"
proof -
  assume ne: "parseProductIds (products q) \<noteq> []"
    and rc: "resolveConsumer client q w = (Inr cid, w1)"
  obtain lr w2 where cl:
    "call_createPaymentLink client (paymentLinkData rt config q cid) w1 = (lr, w2)"
    by (cases "call_createPaymentLink client (paymentLinkData rt config q cid) w1")
  have "calls_of (checkout rt config client q w) = snd w2"
    using ne rc cl by (cases lr) (simp_all add: checkout_def calls_of_def Let_def)
  with call_createPaymentLink_world [OF cl] show ?thesis by simp
qed

lemma checkout_resolve_throws:
  "parseProductIds (products q) \<noteq> [] \<Longrightarrow> resolveConsumer client q w = (Inl err, w1) \<Longrightarrow>
   checkout rt config client q w = (Next err, w1)"
  by (simp add: checkout_def)

lemma resolveConsumer_fields:
  assumes "customerId q' = customerId q" and "customerPhone q' = customerPhone q"
    and "customerEmail q' = customerEmail q" and "customerName q' = customerName q"
  shows "resolveConsumer client q' w = resolveConsumer client q w"
  unfolding resolveConsumer_def consumerData_def assms by (rule refl)

text \<open>The handler reads the request through the product list, the consumer block and the
  payment-link object only.\<close>

lemma checkout_fields:
  assumes "products q' = products q"
    and "\<And>cid. paymentLinkData rt config q' cid = paymentLinkData rt config q cid"
  shows "checkout rt config client q' w =
     (if length (parseProductIds (products q)) = 0 then
        (Status_json 400 ''At least one product ID is required'', w)
      else
        (case resolveConsumer client q' w of
           (Inl err, w1) \<Rightarrow> (Next err, w1)
         | (Inr consumerId, w1) \<Rightarrow>
             (case call_createPaymentLink client (paymentLinkData rt config q consumerId) w1 of
                (Inl err, w2) \<Rightarrow> (Next err, w2)
              | (Inr paymentLink, w2) \<Rightarrow>
                  (let paymentUrl = getPaymentUrl client paymentLink in
                   if \<not> truthy paymentUrl then
                     (Status_json 500 ''Failed to generate payment URL'', w2)
                   else (Redirect (or_else paymentUrl []), w2)))))"
  unfolding checkout_def assms by (rule refl)

section \<open>A supplied customer id\<close>

text \<open>
  C6. When a non-empty \<open>customerId\<close> is supplied, the request makes no consumer-search
  call and no consumer-creation call, whatever the other customer fields are: the only
  call it can make is the creation of the payment link, and that request carries the
  supplied id as \<open>organization_consumer_id\<close>.
\<close>

theorem C6_customer_id_short_circuits:
  assumes "truthy (customerId q)"
  shows "calls_of (checkout rt config client q w) =
           snd w @ (if parseProductIds (products q) = [] then []
                    else [CreatePaymentLink (paymentLinkData rt config q (customerId q))]) \<and>
         organization_consumer_id (paymentLinkData rt config q (customerId q)) = customerId q"
proof (cases "parseProductIds (products q) = []")
  case True
  then show ?thesis
    using assms by (simp add: checkout_def calls_of_def paymentLinkData_def)
next
  case False
  from checkout_after_resolve [OF False resolveConsumer_supplied [OF assms]]
  show ?thesis using False assms by (simp add: paymentLinkData_def)
qed

text \<open>
  C6 at a request with an id and all three customer fields, on a remote whose consumer
  directory throws at every call: the payment link for \<open>cons_42\<close> is the only call.
\<close>

theorem C6_customer_id_short_circuits_witness:
  "calls_of (checkout example_runtime example_config (example_client dir_down)
     (no_query\<lparr>products := Some ''prod_1'', customerId := Some ''cons_42'',
        customerEmail := Some ''a@x.sa'', customerName := Some ''Ahmad'',
        customerPhone := Some ''+966501234567''\<rparr>) (0, [])) =
   [CreatePaymentLink
      \<lparr>link_name = ''Store Checkout'',
       items = [\<lparr>product_id = ''prod_1'', quantity = 1\<rparr>],
       success_redirect_url = ''https://myapp.com/success'',
       failure_redirect_url = ''https://myapp.com/cancel'', coupons = [],
       organization_consumer_id = Some ''cons_42'', link_metadata = None\<rparr>]"
  using C6_customer_id_short_circuits
    [where q = "no_query\<lparr>products := Some ''prod_1'', customerId := Some ''cons_42'',
        customerEmail := Some ''a@x.sa'', customerName := Some ''Ahmad'',
        customerPhone := Some ''+966501234567''\<rparr>"
       and rt = example_runtime and config = example_config
       and client = "example_client dir_down" and w = "(0, [])"]
  by (simp add: no_query_def example_runtime_def example_config_def parseProductIds_def
      paymentLinkData_def paymentLinkName_def parseMetadata_def split_js_def trim_def
      isWhiteSpace_def)

text \<open>
  An empty \<open>customerId\<close> is falsy at both tests of the handler: the request is answered
  as the one without it, and the empty id is never sent.
\<close>

lemma checkout_empty_customer_id:
  assumes "customerId q = Some []"
  shows "checkout rt config client q w = checkout rt config client (q\<lparr>customerId := None\<rparr>) w \<and>
         (\<forall>d\<in>set (link_requests (calls_of (checkout rt config client q (s, [])))).
            organization_consumer_id d \<noteq> Some [])"
proof -
  let ?q = "q\<lparr>customerId := None\<rparr>"
  have pd: "paymentLinkData rt config ?q cid = paymentLinkData rt config q cid" for cid
    by (simp add: paymentLinkData_def paymentLinkName_def)
  have pe: "paymentLinkData rt config q (Some []) = paymentLinkData rt config q None"
    by (simp add: paymentLinkData_def)
  have cd: "consumerData ?q = consumerData q"
    by (simp add: consumerData_def)
  note cf = checkout_fields [where q' = ?q and q = q and rt = rt and config = config,
      OF _ pd, simplified]
  have eq: "checkout rt config client q w = checkout rt config client ?q w"
  proof (cases "truthy (customerPhone q) \<or> truthy (customerEmail q)")
    case False
    then show ?thesis
      using assms by (simp add: cf checkout_def [of rt config client q] resolveConsumer_def pe)
  next
    case True
    obtain fr w3 where fe: "findExisting client (customerPhone q) (customerEmail q) w = (fr, w3)"
      by (cases "findExisting client (customerPhone q) (customerEmail q) w")
    show ?thesis
    proof (cases fr)
      case (Inl err)
      with True fe assms show ?thesis
        by (simp add: cf checkout_def [of rt config client q] resolveConsumer_def)
    next
      case (Inr found)
      with True fe assms show ?thesis
        by (cases found) (simp_all add: cf checkout_def [of rt config client q] resolveConsumer_def pe cd)
    qed
  qed
  have "organization_consumer_id d \<noteq> Some []"
    if "d \<in> set (link_requests (calls_of (checkout rt config client q (s, []))))" for d
  proof (cases "parseProductIds (products q) = []")
    case True
    with that show ?thesis by (simp add: checkout_def)
  next
    case False
    obtain rr w1 where r: "resolveConsumer client q (s, []) = (rr, w1)"
      by (cases "resolveConsumer client q (s, [])")
    from resolveConsumer_world [OF r]
    have nl: "link_requests (snd w1) = []" by auto
    show ?thesis
    proof (cases rr)
      case (Inl err)
      with that False r nl show ?thesis
        by (simp add: checkout_resolve_throws [OF False] calls_of_def)
    next
      case (Inr cid)
      with that False r nl have "d = paymentLinkData rt config q cid"
        by (simp add: checkout_after_resolve [OF False])
      then show ?thesis
        by (cases cid) (auto simp: paymentLinkData_def)
    qed
  qed
  with eq show ?thesis by blast
qed

lemma paginate_first_call:
  assumes pg: "paginate client ph em n True None w = (r, w')" and n: "n \<le> 50"
  shows "\<exists>ps. snd w' = snd w @ ListConsumers \<lparr>page = n, page_size = 100, search_term = None\<rparr> #
                   map ListConsumers ps \<and> (\<forall>p\<in>set ps. search_term p = None)"
proof -
  let ?p = "\<lparr>page = n, page_size = 100, search_term = None\<rparr>"
  obtain res w1 where call: "call_listConsumers client ?p w = (res, w1)"
    by (cases "call_listConsumers client ?p w")
  have w1: "snd w1 = snd w @ [ListConsumers ?p]"
    using call by (rule call_listConsumers_world)
  show ?thesis
  proof (cases res)
    case (Inl err)
    with pg call have "w' = w1" by (simp add: paginate.simps [of client ph em n])
    with w1 show ?thesis by (intro exI [of _ "[]"]) simp
  next
    case (Inr consumers)
    let ?found = "case data consumers of None \<Rightarrow> None
                  | Some cs \<Rightarrow> find (page_match ph em) cs"
    let ?hm = "case pagination consumers of None \<Rightarrow> False | Some p \<Rightarrow> has_next_page p"
    show ?thesis
    proof (cases "?found \<noteq> None \<or> Suc n > 50")
      case True
      with pg call Inr have "w' = w1"
        by (auto simp: paginate.simps [of client ph em n] Let_def split: if_splits)
      with w1 show ?thesis by (intro exI [of _ "[]"]) simp
    next
      case False
      then have le: "Suc n \<le> 50" by simp
      from False pg call Inr
      have rec: "paginate client ph em (Suc n) ?hm ?found w1 = (r, w')"
        by (simp add: paginate.simps [of client ph em n] Let_def)
      from paginate_world [OF le rec]
      obtain ps where "snd w' = snd w1 @ map ListConsumers ps"
        "\<forall>p\<in>set ps. search_term p = None"
        by auto
      with w1 show ?thesis by (intro exI [of _ ps]) simp
    qed
  qed
qed

lemma paginate_no_match:
  assumes nm: "\<And>p s. \<exists>res s'. listConsumers client p s = (Inr res, s') \<and>
                 (\<forall>cs. data res = Some cs \<longrightarrow> find (page_match ph em) cs = None)"
  shows "fst (paginate client ph em n hasMore None w) = Inr None"
proof -
  have "ex = None \<Longrightarrow> fst (paginate client' ph' em' n hasMore ex w) = Inr None"
    if "client' = client" "ph' = ph" "em' = em" for client' ph' em' ex
    using that
  proof (induction client' ph' em' n hasMore ex w rule: paginate.induct)
    case (1 client' ph' em' currentPage hasMore ex w)
    let ?p = "\<lparr>page = currentPage, page_size = 100, search_term = None\<rparr>"
    note eq = "1.prems"(2,3,4)
    show ?case
    proof (cases "hasMore")
      case False
      with "1.prems"(1) show ?thesis
        by (simp add: paginate.simps [of client' ph' em' currentPage])
    next
      case True
      obtain s lg where w: "w = (s, lg)" by (cases w)
      from nm [of ?p s] obtain res s' where
        l: "listConsumers client ?p s = (Inr res, s')"
        and nf: "\<forall>cs. data res = Some cs \<longrightarrow> find (page_match ph em) cs = None"
        by auto
      have call: "call_listConsumers client' ?p w = (Inr res, (s', lg @ [ListConsumers ?p]))"
        by (simp add: call_listConsumers_def w l eq)
      let ?found = "case data res of None \<Rightarrow> None
                    | Some cs \<Rightarrow> find (page_match ph' em') cs"
      let ?hm = "case pagination res of None \<Rightarrow> False | Some p \<Rightarrow> has_next_page p"
      have found: "?found = None"
        using nf eq by (cases "data res") simp_all
      show ?thesis
      proof (cases "Suc currentPage > 50")
        case stop: True
        with True "1.prems"(1) call found show ?thesis
          by (simp add: paginate.simps [of client' ph' em' currentPage] Let_def)
      next
        case go: False
        have go': "hasMore \<and> ex = None" using True "1.prems"(1) by simp
        from "1.IH" [OF go' call [symmetric] refl refl _ refl _ found eq] go found
        have "fst (paginate client' ph' em' (Suc currentPage) ?hm ?found
                 (s', lg @ [ListConsumers ?p])) = Inr None"
          by simp
        with True "1.prems"(1) call found go show ?thesis
          by (simp add: paginate.simps [of client' ph' em' currentPage] Let_def)
      qed
    qed
  qed
  then show ?thesis by simp
qed

lemma findExisting_no_match:
  assumes nm: "\<And>p s. \<exists>res s'. listConsumers client p s = (Inr res, s') \<and>
                 (\<forall>cs. data res = Some cs \<longrightarrow>
                    (\<forall>c\<in>set cs. phone_number c \<noteq> of_query ph \<and> email c \<noteq> of_query em))"
    and some: "truthy ph \<or> truthy em"
  shows "\<exists>w' ps. findExisting client ph em w = (Inr None, w') \<and>
           snd w' = snd w @
             (if truthy ph
              then [ListConsumers \<lparr>page = 1, page_size = 100, search_term = ph\<rparr>] else []) @
             (if truthy em
              then [ListConsumers \<lparr>page = 1, page_size = 100, search_term = em\<rparr>] else []) @
             ListConsumers \<lparr>page = 1, page_size = 100, search_term = None\<rparr> #
             map ListConsumers ps \<and>
           (\<forall>p\<in>set ps. search_term p = None)"
proof -
  have call: "\<exists>res w'. call_listConsumers client p w0 = (Inr res, w') \<and>
                 (\<forall>cs. data res = Some cs \<longrightarrow>
                    (\<forall>c\<in>set cs. phone_number c \<noteq> of_query ph \<and> email c \<noteq> of_query em))"
    for p w0
    using nm [of p "fst w0"] by (cases w0) (auto simp: call_listConsumers_def)
  have n1: "fst (searchByPhone client ph w) = None"
    using call [of "\<lparr>page = 1, page_size = 100, search_term = ph\<rparr>" w]
    by (auto simp: searchByPhone_def find_None_iff_set split: option.splits)
  then obtain w1 where s1: "searchByPhone client ph w = (None, w1)"
    by (cases "searchByPhone client ph w") auto
  have n2: "fst (searchByEmail client ph em None w1) = None"
    using call [of "\<lparr>page = 1, page_size = 100, search_term = em\<rparr>" w1]
    by (auto simp: searchByEmail_def find_None_iff_set split: option.splits)
  then obtain w2 where s2: "searchByEmail client ph em None w1 = (None, w2)"
    by (cases "searchByEmail client ph em None w1") auto
  have pm: "\<exists>res s'. listConsumers client p s = (Inr res, s') \<and>
                 (\<forall>cs. data res = Some cs \<longrightarrow> find (page_match ph em) cs = None)" for p s
    using nm [of p s] by (auto simp: find_None_iff_set page_match_def)
  from paginate_no_match [where client = client and ph = ph and em = em, OF pm]
  obtain w' where pg: "paginate client ph em 1 True None w2 = (Inr None, w')"
    by (cases "paginate client ph em 1 True None w2") (metis fst_conv)
  from paginate_first_call [OF pg]
  obtain ps where ps: "snd w' = snd w2 @
      ListConsumers \<lparr>page = 1, page_size = 100, search_term = None\<rparr> # map ListConsumers ps"
    "\<forall>p\<in>set ps. search_term p = None"
    by auto
  have fe: "findExisting client ph em w = (Inr None, w')"
    using some s1 s2 pg by (simp add: findExisting_def)
  have "snd w' = snd w @
             (if truthy ph
              then [ListConsumers \<lparr>page = 1, page_size = 100, search_term = ph\<rparr>] else []) @
             (if truthy em
              then [ListConsumers \<lparr>page = 1, page_size = 100, search_term = em\<rparr>] else []) @
             ListConsumers \<lparr>page = 1, page_size = 100, search_term = None\<rparr> #
             map ListConsumers ps"
    using searchByPhone_world [OF s1] searchByEmail_world [OF s2] ps(1) by simp
  with fe ps(2) show ?thesis by blast
qed

lemma checkout_no_match:
  assumes nm: "\<And>p s. \<exists>res s'. listConsumers client p s = (Inr res, s') \<and>
                 (\<forall>cs. data res = Some cs \<longrightarrow>
                    (\<forall>c\<in>set cs. phone_number c \<noteq> of_query (customerPhone q) \<and>
                                 email c \<noteq> of_query (customerEmail q)))"
    and nid: "\<not> truthy (customerId q)"
    and det: "truthy (customerPhone q) \<or> truthy (customerEmail q)"
    and pr: "truthy (products q)"
  shows "(\<exists>ps. consumer_listings (calls_of (checkout rt config client q w)) =
            consumer_listings (snd w) @
            (if truthy (customerPhone q)
             then [\<lparr>page = 1, page_size = 100, search_term = customerPhone q\<rparr>] else []) @
            (if truthy (customerEmail q)
             then [\<lparr>page = 1, page_size = 100, search_term = customerEmail q\<rparr>] else []) @
            \<lparr>page = 1, page_size = 100, search_term = None\<rparr> # ps \<and>
            (\<forall>p\<in>set ps. search_term p = None)) \<and>
         consumer_creations (calls_of (checkout rt config client q w)) =
           consumer_creations (snd w) @
           (if truthy (customerName q) then [consumerData q] else [])"
proof -
  have pne: "parseProductIds (products q) \<noteq> []"
    using pr by (rule parseProductIds_truthy)
  from findExisting_no_match [where client = client and w = w, OF nm det]
  obtain w3 ps where fe: "findExisting client (customerPhone q) (customerEmail q) w = (Inr None, w3)"
    and lg: "snd w3 = snd w @
             (if truthy (customerPhone q)
              then [ListConsumers \<lparr>page = 1, page_size = 100, search_term = customerPhone q\<rparr>]
              else []) @
             (if truthy (customerEmail q)
              then [ListConsumers \<lparr>page = 1, page_size = 100, search_term = customerEmail q\<rparr>]
              else []) @
             ListConsumers \<lparr>page = 1, page_size = 100, search_term = None\<rparr> #
             map ListConsumers ps"
    and ps: "\<forall>p\<in>set ps. search_term p = None"
    by blast
  have l3: "consumer_listings (snd w3) =
            consumer_listings (snd w) @
            (if truthy (customerPhone q)
             then [\<lparr>page = 1, page_size = 100, search_term = customerPhone q\<rparr>] else []) @
            (if truthy (customerEmail q)
             then [\<lparr>page = 1, page_size = 100, search_term = customerEmail q\<rparr>] else []) @
            \<lparr>page = 1, page_size = 100, search_term = None\<rparr> # ps"
    and c3: "consumer_creations (snd w3) = consumer_creations (snd w)"
    by (simp_all add: lg)
  note rc = resolveConsumer_unmatched [OF nid det fe]
  have "consumer_listings (calls_of (checkout rt config client q w)) = consumer_listings (snd w3) \<and>
        consumer_creations (calls_of (checkout rt config client q w)) =
           consumer_creations (snd w3) @
           (if truthy (customerName q) then [consumerData q] else [])"
  proof (cases "truthy (customerName q)")
    case False
    with rc have "resolveConsumer client q w = (Inr (customerId q), w3)" by simp
    from checkout_after_resolve [OF pne this, of rt config] False
    show ?thesis by simp
  next
    case True
    obtain cres w4 where cc: "call_createConsumer client (consumerData q) w3 = (cres, w4)"
      by (cases "call_createConsumer client (consumerData q) w3")
    note w4 = call_createConsumer_world [OF cc]
    show ?thesis
    proof (cases cres)
      case (Inl err)
      with rc True cc have "resolveConsumer client q w = (Inl err, w4)" by simp
      from checkout_resolve_throws [OF pne this, of rt config] True w4
      show ?thesis by (simp add: calls_of_def)
    next
      case (Inr c)
      with rc True cc have "resolveConsumer client q w = (Inr (Some (consumer_id c)), w4)"
        by simp
      from checkout_after_resolve [OF pne this, of rt config] True w4
      show ?thesis by simp
    qed
  qed
  with l3 c3 ps show ?thesis by auto
qed

text \<open>
  C10. A \<open>customerId\<close> that is present but empty is falsy: the handler answers, and
  leaves the remote, exactly as for the same request without \<open>customerId\<close>; no
  payment-link request carries an empty consumer id; and consumer resolution still runs:
  for a request with products and a phone or an email, on a directory whose answers hold
  no consumer with that phone or email, the handler makes the search of each field given,
  then fetches page 1 (and possibly further pages), and creates the consumer, by one
  call, when \<open>customerName\<close> is given.
\<close>

theorem C10_empty_customer_id_as_absent:
  assumes "customerId q = Some []"
  shows "checkout rt config client q w = checkout rt config client (q\<lparr>customerId := None\<rparr>) w \<and>
         (\<forall>d\<in>set (link_requests (calls_of (checkout rt config client q (s, [])))).
            organization_consumer_id d \<noteq> Some []) \<and>
         ((\<forall>p s. \<exists>res s'. listConsumers client p s = (Inr res, s') \<and>
                 (\<forall>cs. data res = Some cs \<longrightarrow>
                    (\<forall>c\<in>set cs. phone_number c \<noteq> of_query (customerPhone q) \<and>
                                 email c \<noteq> of_query (customerEmail q)))) \<and>
          (truthy (customerPhone q) \<or> truthy (customerEmail q)) \<and> truthy (products q) \<longrightarrow>
          (\<exists>ps. consumer_listings (calls_of (checkout rt config client q w)) =
             consumer_listings (snd w) @
             (if truthy (customerPhone q)
              then [\<lparr>page = 1, page_size = 100, search_term = customerPhone q\<rparr>] else []) @
             (if truthy (customerEmail q)
              then [\<lparr>page = 1, page_size = 100, search_term = customerEmail q\<rparr>] else []) @
             \<lparr>page = 1, page_size = 100, search_term = None\<rparr> # ps \<and>
             (\<forall>p\<in>set ps. search_term p = None)) \<and>
          consumer_creations (calls_of (checkout rt config client q w)) =
            consumer_creations (snd w) @
            (if truthy (customerName q) then [consumerData q] else []))"
proof -
  have nid: "\<not> truthy (customerId q)"
    using assms by simp
  show ?thesis
    using checkout_empty_customer_id [OF assms, of rt config client w s]
      checkout_no_match [where client = client and q = q and w = w and rt = rt
        and config = config, OF _ nid]
    by blast
qed

text \<open>
  C10 at a request with an empty \<open>customerId\<close>, a phone and a name on an empty
  directory: the handler searches by phone, fetches page 1, creates the consumer and
  sends the new consumer's id, as it does without the parameter.
\<close>

theorem C10_empty_customer_id_as_absent_witness:
  "checkout example_runtime example_config (example_client dir_empty)
     (no_query\<lparr>products := Some ''prod_1'', customerId := Some [],
        customerName := Some ''Ahmad'', customerPhone := Some ''+966501234567''\<rparr>) (0, []) =
   (Redirect ''https://pay.example/link_1'',
    (4, [ListConsumers \<lparr>page = 1, page_size = 100, search_term = Some ''+966501234567''\<rparr>,
         ListConsumers \<lparr>page = 1, page_size = 100, search_term = None\<rparr>,
         CreateConsumer
           \<lparr>new_name = ''Ahmad'', new_phone_number = Some ''+966501234567'', new_email = None\<rparr>,
         CreatePaymentLink
           \<lparr>link_name = ''Store Checkout'',
            items = [\<lparr>product_id = ''prod_1'', quantity = 1\<rparr>],
            success_redirect_url = ''https://myapp.com/success'',
            failure_redirect_url = ''https://myapp.com/cancel'', coupons = [],
            organization_consumer_id = Some ''cons_new'', link_metadata = None\<rparr>])) \<and>
   checkout example_runtime example_config (example_client dir_empty)
     (no_query\<lparr>products := Some ''prod_1'', customerId := None,
        customerName := Some ''Ahmad'', customerPhone := Some ''+966501234567''\<rparr>) (0, []) =
   checkout example_runtime example_config (example_client dir_empty)
     (no_query\<lparr>products := Some ''prod_1'', customerId := Some [],
        customerName := Some ''Ahmad'', customerPhone := Some ''+966501234567''\<rparr>) (0, [])"
  using C10_empty_customer_id_as_absent
    [where q = "no_query\<lparr>products := Some ''prod_1'', customerId := Some [],
        customerName := Some ''Ahmad'', customerPhone := Some ''+966501234567''\<rparr>"
       and rt = example_runtime and config = example_config
       and client = "example_client dir_empty" and w = "(0, [])" and s = 0]
  by (simp add: handler_defs call_defs example_defs paginate.simps)

text \<open>The answer of the handler once the consumer block has returned.\<close>

lemma checkout_after_resolve_response:
  "parseProductIds (products q) \<noteq> [] \<Longrightarrow> resolveConsumer client q w = (Inr cid, w1) \<Longrightarrow>
   call_createPaymentLink client (paymentLinkData rt config q cid) w1 = (lr, w2) \<Longrightarrow>
   checkout rt config client q w =
     (case lr of
        Inl err \<Rightarrow> Next err
      | Inr paymentLink \<Rightarrow>
          if truthy (getPaymentUrl client paymentLink)
          then Redirect (or_else (getPaymentUrl client paymentLink) [])
          else Status_json 500 ''Failed to generate payment URL'', w2)"
  by (cases lr) (simp_all add: checkout_def Let_def)

section \<open>Metadata\<close>

text \<open>
  C8. When \<open>metadata\<close> is supplied and \<open>decodeURIComponent\<close> or \<open>JSON.parse\<close> throws on
  it, the failure raises no error and changes nothing else: the handler answers, and
  leaves the remote, exactly as for the same request without \<open>metadata\<close>; and whenever
  products are given and the consumer block returns, the payment-link request is
  submitted, as the one call after those of the consumer block, with no metadata field
  and all other fields as built from the request, and the answer is what the result of
  that call decides: the redirect to the payment URL, the 500 answer when there is no
  URL, or the error thrown by \<open>createPaymentLink\<close>.
\<close>

theorem C8_malformed_metadata_omitted:
  assumes "metadata q = Some m"
    and "decodeURIComponent rt m = None \<or>
         (\<exists>decoded. decodeURIComponent rt m = Some decoded \<and> JSON_parse rt decoded = None)"
  shows "checkout rt config client q w = checkout rt config client (q\<lparr>metadata := None\<rparr>) w \<and>
         (\<forall>cid. link_metadata (paymentLinkData rt config q cid) = None) \<and>
         (\<forall>cid w1 lr w2.
            truthy (products q) \<and> resolveConsumer client q w = (Inr cid, w1) \<and>
            call_createPaymentLink client (paymentLinkData rt config q cid) w1 = (lr, w2) \<longrightarrow>
            calls_of (checkout rt config client q w) =
              snd w1 @
              [CreatePaymentLink
                 \<lparr>link_name = paymentLinkName rt config q,
                  items = map (\<lambda>i. \<lparr>product_id = i, quantity = 1\<rparr>) (parseProductIds (products q)),
                  success_redirect_url = successUrl config,
                  failure_redirect_url = or_else (returnUrl config) (successUrl config),
                  coupons = [],
                  organization_consumer_id = (if truthy cid then cid else None),
                  link_metadata = None\<rparr>] \<and>
            checkout rt config client q w =
              (case lr of
                 Inl err \<Rightarrow> Next err
               | Inr paymentLink \<Rightarrow>
                   if truthy (getPaymentUrl client paymentLink)
                   then Redirect (or_else (getPaymentUrl client paymentLink) [])
                   else Status_json 500 ''Failed to generate payment URL'', w2))"
proof -
  have pm: "parseMetadata rt (metadata q) = None"
    using assms by (auto simp: parseMetadata_def)
  have pd: "paymentLinkData rt config (q\<lparr>metadata := None\<rparr>) cid = paymentLinkData rt config q cid"
    for cid
    using pm by (simp add: paymentLinkData_def paymentLinkName_def parseMetadata_def)
  have rc: "resolveConsumer client (q\<lparr>metadata := None\<rparr>) w = resolveConsumer client q w"
    by (rule resolveConsumer_fields) simp_all
  have eq: "checkout rt config client (q\<lparr>metadata := None\<rparr>) w = checkout rt config client q w"
    unfolding checkout_fields [where q' = "q\<lparr>metadata := None\<rparr>" and q = q and rt = rt
        and config = config, OF _ pd, simplified] rc checkout_def [of rt config client q]
    by simp
  have none: "link_metadata (paymentLinkData rt config q cid) = None" for cid
    using pm by (simp add: paymentLinkData_def)
  have shape: "paymentLinkData rt config q cid =
      \<lparr>link_name = paymentLinkName rt config q,
       items = map (\<lambda>i. \<lparr>product_id = i, quantity = 1\<rparr>) (parseProductIds (products q)),
       success_redirect_url = successUrl config,
       failure_redirect_url = or_else (returnUrl config) (successUrl config),
       coupons = [],
       organization_consumer_id = (if truthy cid then cid else None),
       link_metadata = None\<rparr>" for cid
    using pm by (simp add: paymentLinkData_def)
  have sent: "calls_of (checkout rt config client q w) =
              snd w1 @ [CreatePaymentLink (paymentLinkData rt config q cid)] \<and>
            checkout rt config client q w =
              (case lr of
                 Inl err \<Rightarrow> Next err
               | Inr paymentLink \<Rightarrow>
                   if truthy (getPaymentUrl client paymentLink)
                   then Redirect (or_else (getPaymentUrl client paymentLink) [])
                   else Status_json 500 ''Failed to generate payment URL'', w2)"
    if "truthy (products q) \<and> resolveConsumer client q w = (Inr cid, w1) \<and>
        call_createPaymentLink client (paymentLinkData rt config q cid) w1 = (lr, w2)"
    for cid w1 lr w2
  proof -
    from that have pne: "parseProductIds (products q) \<noteq> []"
      and r: "resolveConsumer client q w = (Inr cid, w1)"
      and cl: "call_createPaymentLink client (paymentLinkData rt config q cid) w1 = (lr, w2)"
      by (simp_all add: parseProductIds_truthy)
    from checkout_after_resolve [OF pne r, of rt config]
      checkout_after_resolve_response [OF pne r cl]
    show ?thesis by simp
  qed
  show ?thesis
  proof (intro conjI allI impI)
    show "checkout rt config client q w = checkout rt config client (q\<lparr>metadata := None\<rparr>) w"
      using eq by simp
  next
    fix cid show "link_metadata (paymentLinkData rt config q cid) = None" by (rule none)
  next
    fix cid w1 lr w2
    assume h: "truthy (products q) \<and> resolveConsumer client q w = (Inr cid, w1) \<and>
        call_createPaymentLink client (paymentLinkData rt config q cid) w1 = (lr, w2)"
    have "calls_of (checkout rt config client q w) =
              snd w1 @ [CreatePaymentLink (paymentLinkData rt config q cid)]"
      using sent [OF h] by (rule conjunct1)
    then show "calls_of (checkout rt config client q w) =
              snd w1 @
              [CreatePaymentLink
                 \<lparr>link_name = paymentLinkName rt config q,
                  items = map (\<lambda>i. \<lparr>product_id = i, quantity = 1\<rparr>) (parseProductIds (products q)),
                  success_redirect_url = successUrl config,
                  failure_redirect_url = or_else (returnUrl config) (successUrl config),
                  coupons = [],
                  organization_consumer_id = (if truthy cid then cid else None),
                  link_metadata = None\<rparr>]"
      by (simp only: shape [of cid])
    show "checkout rt config client q w =
              (case lr of
                 Inl err \<Rightarrow> Next err
               | Inr paymentLink \<Rightarrow>
                   if truthy (getPaymentUrl client paymentLink)
                   then Redirect (or_else (getPaymentUrl client paymentLink) [])
                   else Status_json 500 ''Failed to generate payment URL'', w2)"
      using sent [OF h] by (rule conjunct2)
  qed
qed

text \<open>
  C8 at \<open>metadata=%7Bbad\<close>, which decodes to a text that is not JSON: the handler
  submits the payment link without metadata and redirects to its URL.
\<close>

theorem C8_malformed_metadata_omitted_witness:
  "decodeURIComponent example_runtime ''%7Bbad'' = Some ''{bad'' \<and>
   JSON_parse example_runtime ''{bad'' = None \<and>
   checkout example_runtime example_config (example_client dir_empty)
     (no_query\<lparr>products := Some ''prod_1'', metadata := Some ''%7Bbad''\<rparr>) (0, []) =
   (Redirect ''https://pay.example/link_1'',
    (1, [CreatePaymentLink
          \<lparr>link_name = ''Store Checkout'',
           items = [\<lparr>product_id = ''prod_1'', quantity = 1\<rparr>],
           success_redirect_url = ''https://myapp.com/success'',
           failure_redirect_url = ''https://myapp.com/cancel'', coupons = [],
           organization_consumer_id = None, link_metadata = None\<rparr>]))"
proof -
  have brace: "char_of (123 :: nat) = CHR ''{''"
    by code_simp
  show ?thesis
    using C8_malformed_metadata_omitted
      [where q = "no_query\<lparr>products := Some ''prod_1'', metadata := Some ''%7Bbad''\<rparr>"
         and m = "''%7Bbad''" and rt = example_runtime and config = example_config
         and client = "example_client dir_empty" and w = "(0, [])"]
    by (simp add: handler_defs call_defs example_defs brace)
qed

lemma page_fetches_simps [simp]:
  "page_fetches [] = []"
  "page_fetches (ListConsumers p # cs) =
     (if search_term p = None then p # page_fetches cs else page_fetches cs)"
  "page_fetches (CreateConsumer d # cs) = page_fetches cs"
  "page_fetches (CreatePaymentLink l # cs) = page_fetches cs"
  by (simp_all add: page_fetches_def)

section \<open>The pagination bound\<close>

text \<open>
  C4. Every request performs at most 50 page fetches (calls of \<open>listConsumers\<close> without
  search term). On a directory where every answer reports \<open>has_next_page = true\<close> and
  holds no consumer with the phone or email of the request, a request that reaches the
  pagination fallback (no customer id, a phone or an email, products given) performs
  exactly 50 page fetches; reaching the bound is no error: the consumer is then created
  by one call when \<open>customerName\<close> is given, and otherwise no consumer is created and
  the payment link is requested without consumer id.
\<close>

theorem C4_pagination_bounded:
  "length (page_fetches (calls_of (checkout rt config client q w))) \<le>
     length (page_fetches (snd w)) + 50 \<and>
   ((\<forall>p s. \<exists>cs s'. listConsumers client p s =
               (Inr \<lparr>data = Some cs, pagination = Some \<lparr>has_next_page = True\<rparr>\<rparr>, s') \<and>
             (\<forall>c\<in>set cs. phone_number c \<noteq> of_query (customerPhone q) \<and>
                          email c \<noteq> of_query (customerEmail q))) \<and>
    \<not> truthy (customerId q) \<and> (truthy (customerPhone q) \<or> truthy (customerEmail q)) \<and>
    truthy (products q) \<longrightarrow>
    length (page_fetches (calls_of (checkout rt config client q w))) =
      length (page_fetches (snd w)) + 50 \<and>
    consumer_creations (calls_of (checkout rt config client q w)) =
      consumer_creations (snd w) @ (if truthy (customerName q) then [consumerData q] else []) \<and>
    (\<not> truthy (customerName q) \<longrightarrow>
       link_requests (calls_of (checkout rt config client q w)) =
         link_requests (snd w) @ [paymentLinkData rt config q None]))"
proof (intro conjI impI)
  obtain r w' where co: "checkout rt config client q w = (r, w')"
    by (cases "checkout rt config client q w")
  from checkout_world [OF co]
  show "length (page_fetches (calls_of (checkout rt config client q w))) \<le>
     length (page_fetches (snd w)) + 50"
    by (auto simp: co calls_of_def)
next
  assume hyp: "(\<forall>p s. \<exists>cs s'. listConsumers client p s =
               (Inr \<lparr>data = Some cs, pagination = Some \<lparr>has_next_page = True\<rparr>\<rparr>, s') \<and>
             (\<forall>c\<in>set cs. phone_number c \<noteq> of_query (customerPhone q) \<and>
                          email c \<noteq> of_query (customerEmail q))) \<and>
    \<not> truthy (customerId q) \<and> (truthy (customerPhone q) \<or> truthy (customerEmail q)) \<and>
    truthy (products q)"
  then have unb: "\<exists>cs s'. listConsumers client p s =
               (Inr \<lparr>data = Some cs, pagination = Some \<lparr>has_next_page = True\<rparr>\<rparr>, s') \<and>
             (\<forall>c\<in>set cs. phone_number c \<noteq> of_query (customerPhone q) \<and>
                          email c \<noteq> of_query (customerEmail q))" for p s
    by blast
  from hyp have nid: "\<not> truthy (customerId q)"
    and det: "truthy (customerPhone q) \<or> truthy (customerEmail q)"
    and pr: "parseProductIds (products q) \<noteq> []"
    by (simp_all add: parseProductIds_truthy)
  from findExisting_unbounded [where client = client and w = w, OF unb det]
  obtain w3 where fe: "findExisting client (customerPhone q) (customerEmail q) w = (Inr None, w3)"
    and pf: "length (page_fetches (snd w3)) = length (page_fetches (snd w)) + 50"
    and cr: "consumer_creations (snd w3) = consumer_creations (snd w)"
    and lr: "link_requests (snd w3) = link_requests (snd w)"
    by blast
  note rc = resolveConsumer_unmatched [OF nid det fe]
  have all: "length (page_fetches (calls_of (checkout rt config client q w))) =
      length (page_fetches (snd w)) + 50 \<and>
    consumer_creations (calls_of (checkout rt config client q w)) =
      consumer_creations (snd w) @ (if truthy (customerName q) then [consumerData q] else []) \<and>
    (\<not> truthy (customerName q) \<longrightarrow>
       link_requests (calls_of (checkout rt config client q w)) =
         link_requests (snd w) @ [paymentLinkData rt config q None])"
  proof (cases "truthy (customerName q)")
    case False
    with rc have "resolveConsumer client q w = (Inr (customerId q), w3)" by simp
    from checkout_after_resolve [OF pr this, of rt config] False pf cr lr nid
    show ?thesis by (simp add: paymentLinkData_falsy [OF nid])
  next
    case True
    obtain cres w4 where cc: "call_createConsumer client (consumerData q) w3 = (cres, w4)"
      by (cases "call_createConsumer client (consumerData q) w3")
    note w4 = call_createConsumer_world [OF cc]
    show ?thesis
    proof (cases cres)
      case (Inl err)
      with rc True cc have "resolveConsumer client q w = (Inl err, w4)" by simp
      from checkout_resolve_throws [OF pr this, of rt config] True pf cr w4
      show ?thesis by (simp add: calls_of_def)
    next
      case (Inr c)
      with rc True cc have "resolveConsumer client q w = (Inr (Some (consumer_id c)), w4)"
        by simp
      from checkout_after_resolve [OF pr this, of rt config] True pf cr w4
      show ?thesis by simp
    qed
  qed
  from all show "length (page_fetches (calls_of (checkout rt config client q w))) =
      length (page_fetches (snd w)) + 50" by blast
  from all show "consumer_creations (calls_of (checkout rt config client q w)) =
      consumer_creations (snd w) @ (if truthy (customerName q) then [consumerData q] else [])"
    by blast
  assume "\<not> truthy (customerName q)"
  with all show "link_requests (calls_of (checkout rt config client q w)) =
         link_requests (snd w) @ [paymentLinkData rt config q None]" by blast
qed


text \<open>
  C4 on the directory that always has a next page, for a request with a phone and a name:
  fifty page fetches, then one consumer is created and the handler redirects.
\<close>

theorem C4_pagination_bounded_witness:
  "length (page_fetches (calls_of (checkout example_runtime example_config
      (example_client dir_unbounded)
      (no_query\<lparr>products := Some ''prod_1'', customerName := Some ''Ahmad'',
         customerPhone := Some ''+966501234567''\<rparr>) (0, [])))) = 50 \<and>
   consumer_creations (calls_of (checkout example_runtime example_config
      (example_client dir_unbounded)
      (no_query\<lparr>products := Some ''prod_1'', customerName := Some ''Ahmad'',
         customerPhone := Some ''+966501234567''\<rparr>) (0, []))) =
     [\<lparr>new_name = ''Ahmad'', new_phone_number = Some ''+966501234567'', new_email = None\<rparr>] \<and>
   fst (checkout example_runtime example_config (example_client dir_unbounded)
      (no_query\<lparr>products := Some ''prod_1'', customerName := Some ''Ahmad'',
         customerPhone := Some ''+966501234567''\<rparr>) (0, [])) =
     Redirect ''https://pay.example/link_1''"
  using C4_pagination_bounded
    [where q = "no_query\<lparr>products := Some ''prod_1'', customerName := Some ''Ahmad'',
         customerPhone := Some ''+966501234567''\<rparr>"
       and rt = example_runtime and config = example_config
       and client = "example_client dir_unbounded" and w = "(0, [])"]
  by (simp add: handler_defs call_defs example_defs paginate.simps)

section \<open>Creating the consumer\<close>

text \<open>
  C7 (as amended). For a request without (non-empty) \<open>customerId\<close>, with a non-empty
  \<open>customerPhone\<close> or \<open>customerEmail\<close>, with \<open>customerName\<close> and with products, in
  which the three strategies return without a match: exactly one \<open>createConsumer\<close> call
  is made, with that name and with the phone number and the email that are given; and
  when the call returns a consumer, one payment link is requested, carrying the id of
  that consumer when the id is not empty.
\<close>

theorem C7_unmatched_consumer_created_once:
  assumes nid: "\<not> truthy (customerId q)"
    and det: "truthy (customerPhone q) \<or> truthy (customerEmail q)"
    and nm: "truthy (customerName q)"
    and pr: "truthy (products q)"
    and fe: "findExisting client (customerPhone q) (customerEmail q) w = (Inr None, w3)"
  shows "consumer_creations (calls_of (checkout rt config client q w)) =
           consumer_creations (snd w) @ [consumerData q] \<and>
         customerName q = Some (new_name (consumerData q)) \<and>
         new_phone_number (consumerData q) =
           (if truthy (customerPhone q) then customerPhone q else None) \<and>
         new_email (consumerData q) =
           (if truthy (customerEmail q) then customerEmail q else None) \<and>
         (\<forall>c w4. call_createConsumer client (consumerData q) w3 = (Inr c, w4) \<longrightarrow>
            link_requests (calls_of (checkout rt config client q w)) =
              link_requests (snd w) @ [paymentLinkData rt config q (Some (consumer_id c))] \<and>
            organization_consumer_id (paymentLinkData rt config q (Some (consumer_id c))) =
              (if consumer_id c = [] then None else Some (consumer_id c)))"
proof -
  have pne: "parseProductIds (products q) \<noteq> []"
    using pr by (rule parseProductIds_truthy)
  from findExisting_world [OF fe]
  have cr: "consumer_creations (snd w3) = consumer_creations (snd w)"
    and lr: "link_requests (snd w3) = link_requests (snd w)"
    by auto
  note rc = resolveConsumer_unmatched [OF nid det fe]
  obtain cres w4 where cc: "call_createConsumer client (consumerData q) w3 = (cres, w4)"
    by (cases "call_createConsumer client (consumerData q) w3")
  note w4 = call_createConsumer_world [OF cc]
  have one: "consumer_creations (calls_of (checkout rt config client q w)) =
           consumer_creations (snd w) @ [consumerData q]"
  proof (cases cres)
    case (Inl err)
    with rc nm cc have "resolveConsumer client q w = (Inl err, w4)" by simp
    from checkout_resolve_throws [OF pne this, of rt config] cr w4
    show ?thesis by (simp add: calls_of_def)
  next
    case (Inr c)
    with rc nm cc have "resolveConsumer client q w = (Inr (Some (consumer_id c)), w4)"
      by simp
    from checkout_after_resolve [OF pne this, of rt config] cr w4
    show ?thesis by simp
  qed
  have link: "link_requests (calls_of (checkout rt config client q w)) =
              link_requests (snd w) @ [paymentLinkData rt config q (Some (consumer_id c))]"
    if "call_createConsumer client (consumerData q) w3 = (Inr c, w5)" for c w5
  proof -
    from that rc nm have "resolveConsumer client q w = (Inr (Some (consumer_id c)), w5)"
      by simp
    from checkout_after_resolve [OF pne this, of rt config]
      call_createConsumer_world [OF that] lr
    show ?thesis by simp
  qed
  have name: "customerName q = Some (new_name (consumerData q))"
    using nm by (cases "customerName q") (simp_all add: consumerData_def)
  have ph: "new_phone_number (consumerData q) =
           (if truthy (customerPhone q) then customerPhone q else None)"
    and em: "new_email (consumerData q) =
           (if truthy (customerEmail q) then customerEmail q else None)"
    by (simp_all add: consumerData_def)
  have oid: "organization_consumer_id (paymentLinkData rt config q (Some i)) =
              (if i = [] then None else Some i)" for i
    by (simp add: paymentLinkData_def)
  from one name ph em link oid show ?thesis by blast
qed

text \<open>
  The amended C7 on an empty directory, for a request with a name and a phone: after the
  search and one page, the consumer is created once and its id \<open>cons_new\<close> is sent.
\<close>

theorem C7_unmatched_consumer_created_once_witness:
  "findExisting (example_client dir_empty) (Some ''+966501234567'') None (0, []) =
     (Inr None,
      (2, [ListConsumers \<lparr>page = 1, page_size = 100, search_term = Some ''+966501234567''\<rparr>,
           ListConsumers \<lparr>page = 1, page_size = 100, search_term = None\<rparr>])) \<and>
   consumer_creations (calls_of (checkout example_runtime example_config
      (example_client dir_empty)
      (no_query\<lparr>products := Some ''prod_1'', customerName := Some ''Ahmad'',
         customerPhone := Some ''+966501234567''\<rparr>) (0, []))) =
     [\<lparr>new_name = ''Ahmad'', new_phone_number = Some ''+966501234567'', new_email = None\<rparr>] \<and>
   map organization_consumer_id (link_requests (calls_of (checkout example_runtime
      example_config (example_client dir_empty)
      (no_query\<lparr>products := Some ''prod_1'', customerName := Some ''Ahmad'',
         customerPhone := Some ''+966501234567''\<rparr>) (0, [])))) = [Some ''cons_new'']"
  using C7_unmatched_consumer_created_once
    [where q = "no_query\<lparr>products := Some ''prod_1'', customerName := Some ''Ahmad'',
         customerPhone := Some ''+966501234567''\<rparr>"
       and rt = example_runtime and config = example_config
       and client = "example_client dir_empty" and w = "(0, [])"
       and ?w3.0 = "(2, [ListConsumers
                          \<lparr>page = 1, page_size = 100, search_term = Some ''+966501234567''\<rparr>,
                        ListConsumers \<lparr>page = 1, page_size = 100, search_term = None\<rparr>])"]
  by (simp add: handler_defs call_defs example_defs paginate.simps)

text \<open>
  C7 as stated fails: with \<open>customerName\<close> and neither phone nor email, the block that
  searches and creates is not entered (\<open>customerPhone || customerEmail\<close> is false): no
  consumer is created and the payment link carries no consumer id.
\<close>

theorem C7_name_only_counterexample:
  "checkout example_runtime example_config (example_client dir_empty)
     (no_query\<lparr>products := Some ''prod_1'', customerName := Some ''Ahmad''\<rparr>) (0, []) =
   (Redirect ''https://pay.example/link_1'',
    (1, [CreatePaymentLink
          \<lparr>link_name = ''Store Checkout'',
           items = [\<lparr>product_id = ''prod_1'', quantity = 1\<rparr>],
           success_redirect_url = ''https://myapp.com/success'',
           failure_redirect_url = ''https://myapp.com/cancel'', coupons = [],
           organization_consumer_id = None, link_metadata = None\<rparr>]))"
  by (simp add: handler_defs call_defs example_defs)

section \<open>Line items\<close>

lemma split_acc_join: "join_js sep (split_acc sep acc s) = rev acc @ s"
proof (induction s arbitrary: acc)
  case Nil
  show ?case by simp
next
  case (Cons c cs)
  show ?case
  proof (cases "c = sep")
    case True
    obtain y ys where "split_acc sep [] cs = y # ys"
      using split_acc_not_Nil [of sep "[]" cs] by (cases "split_acc sep [] cs") auto
    with Cons.IH [of "[]"] True show ?thesis by simp
  next
    case False
    with Cons.IH [of "c # acc"] show ?thesis by simp
  qed
qed

lemma split_acc_segments:
  "seg \<in> set (split_acc sep acc s) \<Longrightarrow> sep \<notin> set acc \<Longrightarrow> sep \<notin> set seg"
proof (induction s arbitrary: acc)
  case Nil
  then show ?case by simp
next
  case (Cons c cs)
  show ?case
  proof (cases "c = sep")
    case True
    with Cons.prems have "seg = rev acc \<or> seg \<in> set (split_acc sep [] cs)" by simp
    then show ?thesis
      using Cons.prems(2) Cons.IH [of "[]"] by auto
  next
    case False
    with Cons.prems have "seg \<in> set (split_acc sep (c # acc) cs)" by simp
    from Cons.IH [OF this] False Cons.prems(2) show ?thesis by auto
  qed
qed

lemma split_acc_length: "length (split_acc sep acc s) = Suc (count_list s sep)"
  by (induction s arbitrary: acc) auto

text \<open>
  C5 (as amended). For a request whose \<open>products\<close> value is not empty, every payment-link
  request of the handler (there is one whenever it redirects) has exactly one line item
  per comma-separated segment of \<open>products\<close>, in the original order, with the trimmed
  segment as product id and quantity 1. The segments are those of \<open>split\<close>: joined with
  commas they give \<open>products\<close> back, none contains a comma, and there is one more than
  there are commas; a segment that is empty after trimming is kept as an item.
\<close>

theorem C5_item_per_segment:
  assumes "products q = Some s" and "s \<noteq> []"
  shows "(\<exists>ds. link_requests (calls_of (checkout rt config client q w)) =
                 link_requests (snd w) @ ds \<and> length ds \<le> 1 \<and>
              (\<forall>d\<in>set ds. items d =
                 map (\<lambda>seg. \<lparr>product_id = trim seg, quantity = 1\<rparr>) (split_js CHR '','' s)) \<and>
              (\<forall>url. fst (checkout rt config client q w) = Redirect url \<longrightarrow> ds \<noteq> [])) \<and>
         join_js CHR '','' (split_js CHR '','' s) = s \<and>
         (\<forall>seg\<in>set (split_js CHR '','' s). CHR '','' \<notin> set seg) \<and>
         length (split_js CHR '','' s) = Suc (count_list s CHR '','')"
proof -
  have ids: "parseProductIds (products q) = map trim (split_js CHR '','' s)"
    using assms by (simp add: parseProductIds_Some)
  then have pne: "parseProductIds (products q) \<noteq> []"
    by (simp add: split_js_def split_acc_not_Nil)
  have it: "items (paymentLinkData rt config q cid) =
      map (\<lambda>seg. \<lparr>product_id = trim seg, quantity = 1\<rparr>) (split_js CHR '','' s)" for cid
    by (simp add: paymentLinkData_def ids comp_def)
  obtain rr w1 where r: "resolveConsumer client q w = (rr, w1)"
    by (cases "resolveConsumer client q w")
  from resolveConsumer_world [OF r]
  have lr: "link_requests (snd w1) = link_requests (snd w)" by auto
  have "\<exists>ds. link_requests (calls_of (checkout rt config client q w)) =
                 link_requests (snd w) @ ds \<and> length ds \<le> 1 \<and>
              (\<forall>d\<in>set ds. items d =
                 map (\<lambda>seg. \<lparr>product_id = trim seg, quantity = 1\<rparr>) (split_js CHR '','' s)) \<and>
              (\<forall>url. fst (checkout rt config client q w) = Redirect url \<longrightarrow> ds \<noteq> [])"
  proof (cases rr)
    case (Inl err)
    with r have "checkout rt config client q w = (Next err, w1)"
      using checkout_resolve_throws [OF pne] by simp
    with lr show ?thesis
      by (intro exI [of _ "[]"]) (simp add: calls_of_def)
  next
    case (Inr cid)
    with r have "resolveConsumer client q w = (Inr cid, w1)" by simp
    from checkout_after_resolve [OF pne this, of rt config] lr it [of cid]
    show ?thesis
      by (intro exI [of _ "[paymentLinkData rt config q cid]"]) simp
  qed
  moreover have "join_js CHR '','' (split_js CHR '','' s) = s"
    by (simp add: split_js_def split_acc_join)
  moreover have "\<forall>seg\<in>set (split_js CHR '','' s). CHR '','' \<notin> set seg"
    using split_acc_segments [of _ "CHR '',''" "[]" s] by (auto simp: split_js_def)
  moreover have "length (split_js CHR '','' s) = Suc (count_list s CHR '','')"
    by (simp add: split_js_def split_acc_length)
  ultimately show ?thesis by blast
qed

text \<open>
  The amended C5 at \<open>products=a, b\<close>: two items, \<open>a\<close> and \<open>b\<close>, in this order.
\<close>

theorem C5_item_per_segment_witness:
  "map items (link_requests (calls_of (checkout example_runtime example_config
      (example_client dir_empty) (no_query\<lparr>products := Some ''a, b''\<rparr>) (0, [])))) =
     [[\<lparr>product_id = ''a'', quantity = 1\<rparr>, \<lparr>product_id = ''b'', quantity = 1\<rparr>]] \<and>
   split_js CHR '','' ''a, b'' = [''a'', '' b'']"
  using C5_item_per_segment
    [where q = "no_query\<lparr>products := Some ''a, b''\<rparr>" and s = "''a, b''"
       and rt = example_runtime and config = example_config
       and client = "example_client dir_empty" and w = "(0, [])"]
  by (simp add: handler_defs call_defs example_defs)

text \<open>
  C5 as stated fails: for \<open>products=a,,b\<close> the empty segment between the commas is an
  item of its own, with the empty string as product id: three items, not two.
\<close>

theorem C5_empty_segment_counterexample:
  "checkout example_runtime example_config (example_client dir_empty)
     (no_query\<lparr>products := Some ''a,,b''\<rparr>) (0, []) =
   (Redirect ''https://pay.example/link_1'',
    (1, [CreatePaymentLink
          \<lparr>link_name = ''Store Checkout'',
           items = [\<lparr>product_id = ''a'', quantity = 1\<rparr>, \<lparr>product_id = [], quantity = 1\<rparr>,
                    \<lparr>product_id = ''b'', quantity = 1\<rparr>],
           success_redirect_url = ''https://myapp.com/success'',
           failure_redirect_url = ''https://myapp.com/cancel'', coupons = [],
           organization_consumer_id = None, link_metadata = None\<rparr>]))"
  by (simp add: handler_defs call_defs example_defs)

section \<open>Failing searches\<close>

























section \<open>Webhook routing\<close>

text \<open>
  C9. For a delivery that passes the signature check and whose event is named
  \<open>payment.completed\<close> or \<open>payment.paid\<close>, with an \<open>onPaymentCompleted\<close> callback
  configured: both names map to \<open>onPaymentCompleted\<close>, that callback is run on the payload,
  and the invocations of the delivery are this one invocation, followed by the catch-all
  when one is registered.
\<close>

theorem C9_completed_and_paid_same_callback:
  assumes ev: "event_type (parse_body rt (raw_body req)) = ''payment.completed'' \<or>
               event_type (parse_body rt (raw_body req)) = ''payment.paid''"
    and ver: "verified rt config req"
    and cb: "callbacks config onPaymentCompleted = Some cb"
  shows "callback_for ''payment.completed'' = Some onPaymentCompleted \<and>
         callback_for ''payment.paid'' = Some onPaymentCompleted \<and>
         invoke_specific config (parse_body rt (raw_body req)) (c, log) =
           (fst (cb (event_data (parse_body rt (raw_body req))) c),
            (snd (cb (event_data (parse_body rt (raw_body req))) c),
             log @ [Specific onPaymentCompleted (event_data (parse_body rt (raw_body req)))])) \<and>
         snd (snd (webhooks rt config req (c, log))) =
           log @ [Specific onPaymentCompleted (event_data (parse_body rt (raw_body req)))] @
             (case onWebhook config of
                None \<Rightarrow> []
              | Some f \<Rightarrow> [CatchAll (event_type (parse_body rt (raw_body req)))
                              (event_data (parse_body rt (raw_body req)))]) \<and>
         length (filter (invoked onPaymentCompleted) (snd (snd (webhooks rt config req (c, log))))) =
           Suc (length (filter (invoked onPaymentCompleted) log))"
proof -
  let ?ev = "parse_body rt (raw_body req)"
  have cf: "callback_for (event_type ?ev) = Some onPaymentCompleted"
    using ev by (auto simp: callback_for_def)
  have sp: "invoke_specific config ?ev (c, log) =
           (fst (cb (event_data ?ev) c),
            (snd (cb (event_data ?ev) c), log @ [Specific onPaymentCompleted (event_data ?ev)]))"
    by (simp add: invoke_specific_def cf cb split: prod.splits)
  have lg: "snd (snd (webhooks rt config req (c, log))) =
           log @ [Specific onPaymentCompleted (event_data ?ev)] @
             (case onWebhook config of
                None \<Rightarrow> []
              | Some f \<Rightarrow> [CatchAll (event_type ?ev) (event_data ?ev)])"
    using ver
    by (auto simp: webhooks_def sp invoke_catch_all_def Let_def split: prod.splits option.splits)
  have "length (filter (invoked onPaymentCompleted) (snd (snd (webhooks rt config req (c, log))))) =
           Suc (length (filter (invoked onPaymentCompleted) log))"
    unfolding lg by (simp split: option.splits)
  with sp lg show ?thesis
    by (simp add: callback_for_def)
qed

text \<open>
  C9 at two deliveries to the example endpoint, one of each name: each runs
  \<open>onPaymentCompleted\<close> once on its own payload.
\<close>

theorem C9_completed_and_paid_same_callback_witness:
  "verified example_webhook_runtime example_webhook_config
     \<lparr>raw_body = ''payment.paid pay_1'', signature = Some ''whsec_payment.paid pay_1''\<rparr> \<and>
   webhooks example_webhook_runtime example_webhook_config
     \<lparr>raw_body = ''payment.paid pay_1'', signature = Some ''whsec_payment.paid pay_1''\<rparr>
     ([], []) =
   (Ack 200, ([''pay_1''],
      [Specific onPaymentCompleted ''pay_1'', CatchAll ''payment.paid'' ''pay_1''])) \<and>
   webhooks example_webhook_runtime example_webhook_config
     \<lparr>raw_body = ''payment.completed pay_2'',
      signature = Some ''whsec_payment.completed pay_2''\<rparr>
     ([''pay_1''], []) =
   (Ack 200, ([''pay_1'', ''pay_2''],
      [Specific onPaymentCompleted ''pay_2'', CatchAll ''payment.completed'' ''pay_2'']))"
  using C9_completed_and_paid_same_callback
    [where rt = example_webhook_runtime and config = example_webhook_config
       and req = "\<lparr>raw_body = ''payment.paid pay_1'',
                     signature = Some ''whsec_payment.paid pay_1''\<rparr>"
       and cb = "\<lambda>d c. (None, c @ [d])" and c = "[]" and log = "[]"]
  by (simp add: example_webhook_runtime_def example_webhook_config_def webhooks_def
      verified_def invoke_specific_def invoke_catch_all_def callback_for_def)

end
